theory Spec2Isabelle
  imports Complex_Main
begin

section \<open>Cart with a vertical chain of poles, trained by PPO: the model\<close>

text \<open>
  The program is \<^verbatim>\<open>src/index.html\<close>: the class \<^verbatim>\<open>VerticalChainSimulator\<close> (the physics),
  the class \<^verbatim>\<open>PPOAgent\<close> (sampling, losses, minibatch update, advantage estimation) and
  the set-up function.

  JavaScript numbers are modelled as \<^typ>\<open>real\<close>: rounding (to doubles, and to single
  precision where the source stores into a \<^verbatim>\<open>Float32Array\<close>), infinities and NaN are outside
  the model, with one exception: the boundary of the termination test depends on which
  values the state vector can hold, and the subsection on single and double precision
  models the rounding of a stored number for it. A read past the end of an array yields \<^verbatim>\<open>undefined\<close> in the source (NaN as
  soon as it is used in arithmetic); in the model \<open>xs ! i\<close> is unspecified there, and every
  statement below that reads the state vector assumes the length \<open>2 + 2N\<close> that the
  constructor establishes and the integrator preserves. A write past the end of a typed
  array is ignored by the source, which is what \<open>xs[i := v]\<close> does.
\<close>

subsection \<open>Utility vector functions\<close>

definition vectorAdd :: "real list \<Rightarrow> real list \<Rightarrow> real list" where
  \<comment> \<open>\<^verbatim>\<open>v1.map((val, i) => val + v2[i])\<close>: the result has the length of \<open>v1\<close>.\<close>
  "vectorAdd v1 v2 = map (\<lambda>i. v1 ! i + v2 ! i) [0..<length v1]"

definition vectorScale :: "real list \<Rightarrow> real \<Rightarrow> real list" where
  "vectorScale v scalar = map (\<lambda>val. val * scalar) v"

definition vectorAddMultiple :: "real list \<Rightarrow> real list list \<Rightarrow> real list" where
  \<comment> \<open>\<^verbatim>\<open>vectorAddMultiple(...vectors)\<close>; the first argument is \<^verbatim>\<open>vectors[0]\<close>, which the
      source copies and then adds the others to, in order.\<close>
  "vectorAddMultiple v0 vectors = foldl vectorAdd v0 vectors"

subsection \<open>The simulator\<close>

record canvas =
  width :: real
  height :: real

record simulator =
  canvas :: canvas
  numPoles :: int
  gravity :: real
  dt :: real
  massCart :: real
  massPole :: real
  L :: real
  state :: "real list"
  xThreshold :: real
  scale :: real
  cartWidth :: real
  cartHeight :: real
  groundY :: real
  trails :: "(real \<times> real) list list"

text \<open>A tip \<^verbatim>\<open>{x: endX, y: endY}\<close> is the pair \<open>(endX, endY)\<close>.\<close>

datatype error = RangeError

definition Float32Array :: "int \<Rightarrow> error + real list" where
  \<comment> \<open>\<^verbatim>\<open>new Float32Array(n)\<close>: zero-filled; a negative length throws a RangeError.\<close>
  "Float32Array n = (if n < 0 then Inl RangeError else Inr (replicate (nat n) 0))"

definition initializeTrails :: "simulator \<Rightarrow> simulator" where
  "initializeTrails sim = sim\<lparr>trails := replicate (nat (numPoles sim)) []\<rparr>"

definition reset :: "simulator \<Rightarrow> (nat \<Rightarrow> real) \<Rightarrow> simulator" where
  \<comment> \<open>\<open>rnd k\<close> is what the \<open>k\<close>-th call of \<^verbatim>\<open>Math.random()\<close> returns (two calls per pole).\<close>
  "reset sim rnd =
     (let s0 = (state sim)[0 := 0];
          s1 = s0[1 := 0];
          s2 = fold (\<lambda>i s. (s[2 + 2 * i := (rnd (2 * i) - 0.5) * 0.05])
                               [3 + 2 * i := (rnd (2 * i + 1) - 0.5) * 0.05])
                    [0..<nat (numPoles sim)] s1
      in initializeTrails (sim\<lparr>state := s2\<rparr>))"

definition VerticalChainSimulator :: "canvas \<Rightarrow> int \<Rightarrow> (nat \<Rightarrow> real) \<Rightarrow> error + simulator" where
  \<comment> \<open>The constructor. The only statement of it that can throw is the allocation of the
      state vector; there is no check of \<open>numPoles\<close>.\<close>
  "VerticalChainSimulator cv n rnd =
     (case Float32Array (2 + 2 * n) of
        Inl e \<Rightarrow> Inl e
      | Inr st \<Rightarrow>
          Inr (initializeTrails
                (reset \<lparr>canvas = cv, numPoles = n, gravity = 9.8, dt = 0.02,
                        massCart = 1.0, massPole = 0.1, L = 1.0, state = st,
                        xThreshold = 2.4, scale = 100, cartWidth = 0.8 * 100,
                        cartHeight = 0.4 * 100, groundY = height cv - 100,
                        trails = []\<rparr> rnd)))"

fun tipsFrom :: "real list \<Rightarrow> real \<Rightarrow> real \<Rightarrow> real \<Rightarrow> nat list \<Rightarrow> (real \<times> real) list" where
  \<comment> \<open>The loop of \<^verbatim>\<open>getPoleTipCoordinates\<close> over the remaining pole indices, with the
      current base point.\<close>
  "tipsFrom st linkLengthPx baseX baseY [] = []"
| "tipsFrom st linkLengthPx baseX baseY (i # is) =
     (let theta = st ! (2 + 2 * i);
          endX = baseX + linkLengthPx * sin theta;
          endY = baseY - linkLengthPx * cos theta
      in (endX, endY) # tipsFrom st linkLengthPx endX endY is)"

definition getPoleTipCoordinates :: "simulator \<Rightarrow> (real \<times> real) list" where
  "getPoleTipCoordinates sim =
     (let cartX = width (canvas sim) / 2 + state sim ! 0 * scale sim;
          cartY = groundY sim;
          baseX = cartX;
          baseY = cartY - cartHeight sim
      in tipsFrom (state sim) (L sim * scale sim) baseX baseY [0..<nat (numPoles sim)])"

definition computeDerivatives :: "simulator \<Rightarrow> real list \<Rightarrow> real \<Rightarrow> real list" where
  "computeDerivatives sim st force =
     (let deriv0 = (replicate (length st) 0)[0 := st ! 1];
          totalMass = massCart sim + real_of_int (numPoles sim) * massPole sim;
          a_cart = force / totalMass;
          deriv1 = deriv0[1 := a_cart]
      in fold (\<lambda>i deriv.
                 let idx = 2 + 2 * i;
                     theta = st ! idx;
                     theta_dot = st ! (idx + 1)
                 in (deriv[idx := theta_dot])
                      [idx + 1 := - (gravity sim / L sim) * sin theta
                                  - (a_cart / L sim) * cos theta])
              [0..<nat (numPoles sim)] deriv1)"

definition rk4Step :: "simulator \<Rightarrow> real \<Rightarrow> simulator" where
  "rk4Step sim force =
     (let s = state sim;
          k1 = computeDerivatives sim s force;
          s2 = vectorAdd s (vectorScale k1 (dt sim / 2));
          k2 = computeDerivatives sim s2 force;
          s3 = vectorAdd s (vectorScale k2 (dt sim / 2));
          k3 = computeDerivatives sim s3 force;
          s4 = vectorAdd s (vectorScale k3 (dt sim));
          k4 = computeDerivatives sim s4 force;
          incr = vectorScale
                   (vectorAddMultiple k1 [vectorScale k2 2, vectorScale k3 2, k4])
                   (dt sim / 6)
      in sim\<lparr>state := vectorAdd s incr\<rparr>)"

definition updateTrails :: "simulator \<Rightarrow> simulator" where
  \<comment> \<open>\<^verbatim>\<open>this.maxTrailLength\<close> is never assigned: the comparison of a length with
      \<^verbatim>\<open>undefined\<close> is false, so no trail is ever shortened.\<close>
  "updateTrails sim =
     (let tips = getPoleTipCoordinates sim
      in sim\<lparr>trails := fold (\<lambda>i tr. tr[i := tr ! i @ [tips ! i]])
                              [0..<nat (numPoles sim)] (trails sim)\<rparr>)"

definition tipNearGround :: "simulator \<Rightarrow> bool" where
  \<comment> \<open>The loop of \<^verbatim>\<open>isTerminal\<close> over the tips: whether it returns \<^verbatim>\<open>true\<close>.\<close>
  "tipNearGround sim =
     list_ex (\<lambda>tip. snd tip \<ge> groundY sim - 10) (getPoleTipCoordinates sim)"

definition isTerminal :: "simulator \<Rightarrow> bool" where
  "isTerminal sim =
     (if \<bar>state sim ! 0\<bar> > xThreshold sim then True else tipNearGround sim)"

function update_loop :: "real \<Rightarrow> int \<Rightarrow> int \<Rightarrow> simulator \<Rightarrow> int \<times> simulator" where
  \<comment> \<open>The \<^verbatim>\<open>for\<close> loop of \<^verbatim>\<open>update\<close>, from the counter \<open>i\<close>. The first component of the
      result counts the calls of \<^verbatim>\<open>rk4Step\<close> made so far (it is not a value of the source:
      it is what the statements about the number of steps are read from).\<close>
  "update_loop force steps i sim =
     (if i < steps then
        (let sim1 = rk4Step sim force;
             sim2 = updateTrails sim1
         in if isTerminal sim2 then (i + 1, sim2)
            else update_loop force steps (i + 1) sim2)
      else (i, sim))"
  by pat_completeness auto
termination
  by (relation "measure (\<lambda>(force, steps, i, sim). nat (steps - i))") auto

declare update_loop.simps [simp del]

definition update_run :: "simulator \<Rightarrow> real \<Rightarrow> real \<Rightarrow> int \<times> simulator" where
  "update_run sim force elapsedTime =
     (let steps = \<lfloor>elapsedTime / (dt sim * 1000)\<rfloor>
      in update_loop force steps 0 sim)"

definition update :: "simulator \<Rightarrow> real \<Rightarrow> real \<Rightarrow> simulator" where
  "update sim force elapsedTime = snd (update_run sim force elapsedTime)"

text \<open>
  What the constructor establishes and no method changes: the physical and graphical
  constants (\<open>configured\<close>), and the length of the state vector (\<open>state_ok\<close>).
\<close>

definition configured :: "simulator \<Rightarrow> bool" where
  "configured sim \<longleftrightarrow>
     gravity sim = 9.8 \<and> dt sim = 0.02 \<and> massCart sim = 1.0 \<and> massPole sim = 0.1 \<and>
     L sim = 1.0 \<and> xThreshold sim = 2.4 \<and> scale sim = 100 \<and> cartWidth sim = 80 \<and>
     cartHeight sim = 40 \<and> groundY sim = height (canvas sim) - 100"

definition state_ok :: "simulator \<Rightarrow> bool" where
  "state_ok sim \<longleftrightarrow> int (length (state sim)) = 2 + 2 * numPoles sim"

definition pageSimulator :: "int \<Rightarrow> real list \<Rightarrow> simulator" where
  \<comment> \<open>The simulator as the constructor leaves it on the page's canvas
      (\<^verbatim>\<open>width="800" height="600"\<close>) for \<open>n\<close> poles, holding the state vector \<open>st\<close>.\<close>
  "pageSimulator n st =
     \<lparr>canvas = \<lparr>width = 800, height = 600\<rparr>, numPoles = n, gravity = 9.8, dt = 0.02,
      massCart = 1.0, massPole = 0.1, L = 1.0, state = st, xThreshold = 2.4, scale = 100,
      cartWidth = 0.8 * 100, cartHeight = 0.4 * 100, groundY = 600 - 100,
      trails = replicate (nat n) []\<rparr>"

subsection \<open>The agent\<close>

text \<open>
  The networks, the tensors and the optimizers belong to TensorFlow.js and are not
  modelled. Where a method needs what a network returns, the model takes it as an
  argument: \<open>mu\<close> is the actor's output for the observation (one row, one entry for each
  action dimension) and \<open>v\<close> the critic's. The variable \<^verbatim>\<open>actorLogStd\<close> is a vector with one
  entry for each action dimension; the shapes that the source combines elementwise are
  equal by construction, and the statements below assume equal lengths.
\<close>

record agent =
  obs_dim :: int
  action_dim :: nat
  clipRatio :: real
  entropyCoef :: real
  gamma :: real
  lam :: real
  actorLearningRate :: real
  criticLearningRate :: real
  actorLogStd :: "real list"

definition PPOAgent :: "int \<Rightarrow> nat \<Rightarrow> agent" where
  "PPOAgent od ad =
     \<lparr>obs_dim = od, action_dim = ad, clipRatio = 0.2, entropyCoef = 0.01, gamma = 0.99,
      lam = 0.95, actorLearningRate = 3 / 10 ^ 4, criticLearningRate = 1 / 10 ^ 3,
      actorLogStd = replicate ad (- 0.5)\<rparr>"

definition getAction :: "agent \<Rightarrow> real list \<Rightarrow> real \<Rightarrow> real list \<Rightarrow> real list \<times> real \<times> real" where
  \<comment> \<open>\<open>noise\<close> is what \<^verbatim>\<open>tf.randomNormal(mu.shape)\<close> returns. The result is
      \<^verbatim>\<open>{action, logProb, value}\<close>.\<close>
  "getAction ag mu v noise =
     (let std = map exp (actorLogStd ag);
          action = map2 (+) mu (map2 (*) std noise);
          logProb = sum_list
                      (map2 (\<lambda>n l. - 0.5 * (n\<^sup>2 + (2 * l + ln (2 * pi)))) noise (actorLogStd ag))
      in (action, logProb, v))"

definition computeLosses_logp :: "agent \<Rightarrow> real list \<Rightarrow> real list \<Rightarrow> real" where
  \<comment> \<open>The value \<^verbatim>\<open>logp\<close> of \<^verbatim>\<open>computeLosses\<close> for one row \<open>act\<close> of \<^verbatim>\<open>actBatch\<close> and the row
      \<open>mu\<close> of \<^verbatim>\<open>this.actor.apply(obsBatch)\<close>.\<close>
  "computeLosses_logp ag mu act =
     (let std = map exp (actorLogStd ag);
          actionDiff = map2 (\<lambda>d s. d / (s + 1 / 10 ^ 8)) (map2 (-) act mu) std
      in sum_list
           (map2 (\<lambda>d l. - 0.5 * (d\<^sup>2 + (2 * l + ln (2 * pi)))) actionDiff (actorLogStd ag)))"

definition slice :: "'a list \<Rightarrow> nat \<Rightarrow> nat \<Rightarrow> 'a list" where
  \<comment> \<open>\<^verbatim>\<open>xs.slice(i, j)\<close> for indices that are not negative.\<close>
  "slice xs i j = take (j - i) (drop i xs)"

partial_function (option) minibatches ::
  "(nat list \<Rightarrow> 'p \<Rightarrow> 'e + 'p) \<Rightarrow> nat list \<Rightarrow> nat \<Rightarrow> nat \<Rightarrow> nat \<Rightarrow> 'p
     \<Rightarrow> (nat list list \<times> ('e + 'p)) option" where
  \<comment> \<open>The inner loop of \<^verbatim>\<open>update\<close> from the offset \<open>i\<close>. \<open>pass\<close> is what one pass does, after
      taking its slice, with the \<^verbatim>\<open>batchIndices\<close> and the state \<open>p\<close> of TensorFlow.js
      (tensors, network parameters, optimizers): \<^verbatim>\<open>tf.tensor1d\<close>, five gathers, two optimizer
      steps, six disposals. Either one of these calls throws (\<open>Inl\<close>), which ends
      \<^verbatim>\<open>update\<close> there with a rejected promise, or the pass leaves the next state. The
      result is the \<^verbatim>\<open>batchIndices\<close> of the passes begun, in order, and how the loop ended;
      \<open>None\<close> when the loop does not end.\<close>
  "minibatches pass indices datasetSize batchSize i p =
     (if i < datasetSize then
        (let batchIndices = slice indices i (i + batchSize)
         in case pass batchIndices p of
              Inl e \<Rightarrow> Some ([batchIndices], Inl e)
            | Inr p' \<Rightarrow>
                Option.bind (minibatches pass indices datasetSize batchSize (i + batchSize) p')
                  (\<lambda>(rest, r). Some (batchIndices # rest, r)))
      else Some ([], Inr p))"

fun epoch_loop ::
  "(nat list \<Rightarrow> 'p \<Rightarrow> 'e + 'p) \<Rightarrow> nat list \<Rightarrow> nat \<Rightarrow> nat \<Rightarrow> nat \<Rightarrow> 'p
     \<Rightarrow> (nat list list list \<times> ('e + 'p)) option" where
  \<comment> \<open>The outer loop of \<^verbatim>\<open>update\<close>, by the number of epochs still to run: the
      \<^verbatim>\<open>batchIndices\<close> of the passes begun, epoch by epoch, and how the loop ended.\<close>
  "epoch_loop pass indices datasetSize batchSize 0 p = Some ([], Inr p)"
| "epoch_loop pass indices datasetSize batchSize (Suc k) p =
     (case minibatches pass indices datasetSize batchSize 0 p of
        None \<Rightarrow> None
      | Some (batches, Inl e) \<Rightarrow> Some ([batches], Inl e)
      | Some (batches, Inr p') \<Rightarrow>
          (case epoch_loop pass indices datasetSize batchSize k p' of
             None \<Rightarrow> None
           | Some (rest, r) \<Rightarrow> Some (batches # rest, r)))"

definition PPOAgent_update ::
  "('g \<Rightarrow> nat \<Rightarrow> nat list \<times> 'g) \<Rightarrow> (nat list \<Rightarrow> 'p \<Rightarrow> 'e + 'p) \<Rightarrow> 'g \<Rightarrow> nat \<Rightarrow> nat \<Rightarrow> nat \<Rightarrow> 'p
     \<Rightarrow> (nat list list list \<times> ('e + 'p)) option \<times> 'g" where
  \<comment> \<open>\<^verbatim>\<open>PPOAgent.update\<close>. \<open>createShuffledIndices\<close> is \<^verbatim>\<open>tf.util.createShuffledIndices\<close>: from
      the state \<open>g\<close> of the random source and a size it returns a list of indices and the
      next state of the source. \<open>datasetSize\<close> is \<^verbatim>\<open>observations.shape[0]\<close>.\<close>
  "PPOAgent_update createShuffledIndices pass g datasetSize epochs batchSize p =
     (let (indices, g') = createShuffledIndices g datasetSize
      in (epoch_loop pass indices datasetSize batchSize epochs p, g'))"

record gae =
  advantages :: "real list"
  returns :: "real list"

fun gae_loop ::
  "real \<Rightarrow> real \<Rightarrow> real list \<Rightarrow> real list \<Rightarrow> real list \<Rightarrow> nat \<Rightarrow> real \<Rightarrow> real list \<Rightarrow> real list" where
  \<comment> \<open>The loop of \<^verbatim>\<open>computeGAE\<close>; the counter is \<open>t + 1\<close>, the loop ends when it is 0.
      An entry of \<^verbatim>\<open>dones\<close> counts as true when it is not 0.\<close>
  "gae_loop g l rewards vals dones 0 lastgaelam adv = adv"
| "gae_loop g l rewards vals dones (Suc t) lastgaelam adv =
     (let nextValue = (if t = length rewards - 1 then 0 else vals ! (t + 1));
          nextNonTerminal = (if dones ! t \<noteq> 0 then 0 else 1);
          delta = rewards ! t + g * nextValue * nextNonTerminal - vals ! t;
          lastgaelam' = delta + g * l * nextNonTerminal * lastgaelam
      in gae_loop g l rewards vals dones t lastgaelam' (adv[t := lastgaelam']))"

definition computeGAE :: "agent \<Rightarrow> real list \<Rightarrow> real list \<Rightarrow> real list \<Rightarrow> gae" where
  \<comment> \<open>\<^verbatim>\<open>new Array(n)\<close> has \<open>n\<close> holes, every one of which the loop fills; the model starts
      from zeros. \<^verbatim>\<open>mean\<close> and \<^verbatim>\<open>std\<close> are computed as in the source and, as in the source,
      not used.\<close>
  "computeGAE ag rewards vals dones =
     (let adv = gae_loop (gamma ag) (lam ag) rewards vals dones (length rewards) 0
                  (replicate (length rewards) 0);
          rets = map (\<lambda>idx. adv ! idx + vals ! idx) [0..<length adv];
          mean = foldl (+) 0 adv / real (length adv);
          std = sqrt (foldl (+) 0 (map (\<lambda>a. (a - mean)\<^sup>2) adv) / real (length adv));
          advFlat = adv;
          retFlat = rets
      in \<lparr>advantages = advFlat, returns = retFlat\<rparr>)"

text \<open>
  The recursion of the specification, section 4.3, written from its words: the
  advantage at \<open>t\<close> from the advantage at \<open>t + 1\<close>, and 0 at \<open>T\<close>.
\<close>

function spec_advantage :: "real \<Rightarrow> real \<Rightarrow> real list \<Rightarrow> real list \<Rightarrow> real list \<Rightarrow> nat \<Rightarrow> real" where
  "spec_advantage g l rewards vals dones t =
     (if length rewards \<le> t then 0
      else
        (let nextValue = (if t = length rewards - 1 then 0 else vals ! (t + 1));
             nextNonTerm = (if dones ! t \<noteq> 0 then 0 else 1);
             delta = rewards ! t + g * nextValue * nextNonTerm - vals ! t
         in delta + g * l * nextNonTerm * spec_advantage g l rewards vals dones (t + 1)))"
  by pat_completeness auto
termination
  by (relation "measure (\<lambda>(g, l, rewards, vals, dones, t). length rewards - t)") auto

declare spec_advantage.simps [simp del]

subsection \<open>Set-up\<close>

definition initSimulation :: "canvas \<Rightarrow> int \<Rightarrow> (nat \<Rightarrow> real) \<Rightarrow> error + simulator \<times> agent" where
  \<comment> \<open>\<open>n\<close> is what \<^verbatim>\<open>parseInt\<close> returns for the selected option. The six buffers, which the
      source empties here, are not part of the model.\<close>
  "initSimulation cv n rnd =
     (case VerticalChainSimulator cv n rnd of
        Inl e \<Rightarrow> Inl e
      | Inr sim \<Rightarrow> Inr (sim, PPOAgent (2 + 2 * numPoles sim) 1))"

subsection \<open>The end of an episode in the training tick\<close>

text \<open>
  The six buffers of the page, and the five arguments that the tick passes to
  \<^verbatim>\<open>agent.update\<close> under the names the tick gives them. A tensor is modelled by the array
  it is built from.
\<close>

record buffers =
  bufferObservations :: "real list list"
  bufferActions :: "real list list"
  bufferRewards :: "real list"
  bufferDones :: "real list"
  bufferLogProbs :: "real list"
  bufferValues :: "real list"

record update_args =
  obsTensor :: "real list list"
  actTensor :: "real list list"
  advTensor :: "real list"
  retTensor :: "real list"
  logpOldTensor :: "real list"

definition episode_end :: "agent \<Rightarrow> buffers \<Rightarrow> real \<Rightarrow> update_args option \<times> buffers" where
  \<comment> \<open>The branch \<^verbatim>\<open>if (done === 1)\<close> of the tick, after the transition has been pushed: the
      arguments of the call of \<^verbatim>\<open>agent.update\<close>, if it is made, and the buffers afterwards.
      (The tick also resets the simulator there.)\<close>
  "episode_end ag b done_flag =
     (if done_flag = 1 then
        (let call =
               (if length (bufferObservations b) > 0 then
                  (let gae = computeGAE ag (bufferRewards b) (bufferValues b) (bufferDones b)
                   in Some \<lparr>obsTensor = bufferObservations b, actTensor = bufferActions b,
                             advTensor = advantages gae, retTensor = returns gae,
                             logpOldTensor = bufferLogProbs b\<rparr>)
                else None)
         in (call, \<lparr>bufferObservations = [], bufferActions = [], bufferRewards = [],
                    bufferDones = [], bufferLogProbs = [], bufferValues = []\<rparr>))
      else (None, b))"

subsection \<open>Single and double precision\<close>







section \<open>Properties\<close>

subsection \<open>Auxiliary facts: tips, integrator, loop of the physics update\<close>

lemma length_tipsFrom: "length (tipsFrom st l bx by is) = length is"
  by (induction "is" arbitrary: bx "by") (simp_all add: Let_def)

lemma snd_tipsFrom_nth:
  "k + j < n \<Longrightarrow>
   snd (tipsFrom st l bx by [k..<n] ! j) = by - l * (\<Sum>m = k..k + j. cos (st ! (2 + 2 * m)))"
proof (induction j arbitrary: k bx "by")
  case 0
  then have "[k..<n] = k # [Suc k..<n]" by (simp add: upt_conv_Cons)
  then show ?case by (simp add: Let_def)
next
  case (Suc j)
  then have u: "[k..<n] = k # [Suc k..<n]" by (simp add: upt_conv_Cons)
  from Suc.prems have "Suc k + j < n" by simp
  note ih = Suc.IH [OF this]
  have s: "(\<Sum>m = k..k + Suc j. cos (st ! (2 + 2 * m))) =
           cos (st ! (2 + 2 * k)) + (\<Sum>m = Suc k..Suc k + j. cos (st ! (2 + 2 * m)))"
    by (simp add: sum.atLeast_Suc_atMost)
  show ?case
    unfolding u s by (simp add: Let_def ih algebra_simps)
qed

lemma tips_near_ground:
  assumes "configured sim"
  shows "tipNearGround sim \<longleftrightarrow>
         (\<exists>i \<in> {1..nat (numPoles sim)}. (\<Sum>m < i. cos (state sim ! (2 + 2 * m))) \<le> - 0.3)"
proof -
  let ?n = "nat (numPoles sim)"
  let ?bx = "width (canvas sim) / 2 + state sim ! 0 * scale sim"
  let ?tips = "tipsFrom (state sim) (L sim * scale sim) ?bx (groundY sim - cartHeight sim) [0..<?n]"
  have y: "snd (?tips ! j) = groundY sim - 40 - 100 * (\<Sum>m < Suc j. cos (state sim ! (2 + 2 * m)))"
    if "j < ?n" for j
  proof -
    from that have "0 + j < ?n" by simp
    from snd_tipsFrom_nth [OF this] assms show ?thesis
      by (simp add: configured_def atLeast0AtMost lessThan_Suc_atMost)
  qed
  have "list_ex (\<lambda>tip. snd tip \<ge> groundY sim - 10) ?tips \<longleftrightarrow>
        (\<exists>j < ?n. snd (?tips ! j) \<ge> groundY sim - 10)"
    by (simp add: list_ex_length length_tipsFrom)
  also have "\<dots> \<longleftrightarrow> (\<exists>j < ?n. (\<Sum>m < Suc j. cos (state sim ! (2 + 2 * m))) \<le> - 0.3)"
    using y by auto
  also have "\<dots> \<longleftrightarrow> (\<exists>i \<in> {1..?n}. (\<Sum>m < i. cos (state sim ! (2 + 2 * m))) \<le> - 0.3)"
  proof
    assume "\<exists>j < ?n. (\<Sum>m < Suc j. cos (state sim ! (2 + 2 * m))) \<le> - 0.3"
    then obtain j where "j < ?n" "(\<Sum>m < Suc j. cos (state sim ! (2 + 2 * m))) \<le> - 0.3" by blast
    then have "Suc j \<in> {1..?n}" by simp
    with \<open>(\<Sum>m < Suc j. cos (state sim ! (2 + 2 * m))) \<le> - 0.3\<close> show
      "\<exists>i \<in> {1..?n}. (\<Sum>m < i. cos (state sim ! (2 + 2 * m))) \<le> - 0.3" by blast
  next
    assume "\<exists>i \<in> {1..?n}. (\<Sum>m < i. cos (state sim ! (2 + 2 * m))) \<le> - 0.3"
    then obtain i where i: "i \<in> {1..?n}" "(\<Sum>m < i. cos (state sim ! (2 + 2 * m))) \<le> - 0.3" by blast
    then obtain j where "i = Suc j" by (cases i) auto
    with i have "j < ?n" and "(\<Sum>m < Suc j. cos (state sim ! (2 + 2 * m))) \<le> - 0.3"
      by simp_all
    then show "\<exists>j < ?n. (\<Sum>m < Suc j. cos (state sim ! (2 + 2 * m))) \<le> - 0.3" by blast
  qed
  finally show ?thesis by (simp add: tipNearGround_def getPoleTipCoordinates_def Let_def)
qed

lemma length_vectorAdd: "length (vectorAdd v1 v2) = length v1"
  by (simp add: vectorAdd_def)

lemma length_rk4Step: "length (state (rk4Step sim force)) = length (state sim)"
  by (simp add: rk4Step_def Let_def length_vectorAdd)

lemma update_loop_steps:
  assumes "update_loop force steps i sim = (k, sim')"
    and "\<And>s. F s = updateTrails (rk4Step s force)"
  shows "i \<le> k \<and> k \<le> max i steps \<and>
         sim' = (F ^^ nat (k - i)) sim \<and>
         (\<forall>j. 0 < j \<and> j < nat (k - i) \<longrightarrow> \<not> isTerminal ((F ^^ j) sim)) \<and>
         (k < steps \<longrightarrow> isTerminal sim') \<and>
         (i < steps \<longrightarrow> i < k)"
  using assms
proof (induction force steps i sim arbitrary: k sim' rule: update_loop.induct)
  case (1 force steps i sim)
  note F = "1.prems"(2)
  show ?case
  proof (cases "i < steps")
    case False
    with "1.prems"(1) have "k = i" "sim' = sim"
      by (simp_all add: update_loop.simps [of force steps i sim])
    with False show ?thesis by simp
  next
    case True
    then have eq: "update_loop force steps i sim =
        (if isTerminal (F sim) then (i + 1, F sim) else update_loop force steps (i + 1) (F sim))"
      by (subst update_loop.simps) (simp add: Let_def F)
    show ?thesis
    proof (cases "isTerminal (F sim)")
      case t: True
      with eq "1.prems"(1) have "k = i + 1" "sim' = F sim" by simp_all
      with True t show ?thesis by simp
    next
      case f: False
      with eq "1.prems"(1) have rec: "update_loop force steps (i + 1) (F sim) = (k, sim')"
        by simp
      from f have f': "\<not> isTerminal (updateTrails (rk4Step sim force))" by (simp add: F)
      from rec have rec': "update_loop force steps (i + 1) (updateTrails (rk4Step sim force)) = (k, sim')"
        by (simp add: F)
      from "1.IH" [OF True refl refl f' rec' F]
      have ih: "i + 1 \<le> k" "k \<le> max (i + 1) steps"
        "sim' = (F ^^ nat (k - (i + 1))) (F sim)"
        "\<forall>j. 0 < j \<and> j < nat (k - (i + 1)) \<longrightarrow> \<not> isTerminal ((F ^^ j) (F sim))"
        "k < steps \<longrightarrow> isTerminal sim'"
        unfolding F [symmetric] by blast+
      from ih(1) have nk: "nat (k - i) = Suc (nat (k - (i + 1)))" by simp
      have "\<not> isTerminal ((F ^^ j) sim)" if "0 < j" "j < nat (k - i)" for j
      proof (cases j)
        case 0
        with that show ?thesis by simp
      next
        case (Suc j')
        show ?thesis
        proof (cases j')
          case 0
          with Suc f show ?thesis by simp
        next
          case (Suc j'')
          with \<open>j = Suc j'\<close> that nk have "0 < j' \<and> j' < nat (k - (i + 1))" by simp
          with ih(4) have "\<not> isTerminal ((F ^^ j') (F sim))" by blast
          with \<open>j = Suc j'\<close> show ?thesis by (simp add: funpow_swap1)
        qed
      qed
      with ih True show ?thesis
        by (simp add: nk funpow_swap1)
    qed
  qed
qed

lemma updateTrails_fields [simp]:
  "state (updateTrails sim) = state sim"
  "xThreshold (updateTrails sim) = xThreshold sim"
  "dt (updateTrails sim) = dt sim"
  "numPoles (updateTrails sim) = numPoles sim"
  by (simp_all add: updateTrails_def Let_def)

lemma rk4Step_fields [simp]:
  "xThreshold (rk4Step sim force) = xThreshold sim"
  "dt (rk4Step sim force) = dt sim"
  "numPoles (rk4Step sim force) = numPoles sim"
  by (simp_all add: rk4Step_def Let_def)

lemma rk4Step_example:
  "state (rk4Step (pageSimulator 1 [12 / 5, 1, 0, 0]) 0) = [121 / 50, 1, 0, 0]"
  by (simp add: rk4Step_def pageSimulator_def computeDerivatives_def vectorAdd_def
      vectorScale_def vectorAddMultiple_def Let_def)

lemma update_early_exit:
  "fst (update_run (pageSimulator 1 [12 / 5, 1, 0, 0]) 0 60) = 1 \<and>
   \<lfloor>60 / (dt (pageSimulator 1 [12 / 5, 1, 0, 0]) * 1000)\<rfloor> = (3::int)"
proof -
  let ?sim = "pageSimulator 1 [12 / 5, 1, 0, 0]"
  have d: "dt ?sim = 0.02" and x: "xThreshold ?sim = 2.4" by (simp_all add: pageSimulator_def)
  have t: "isTerminal (updateTrails (rk4Step ?sim 0))"
    by (simp add: isTerminal_def rk4Step_example x)
  have "update_loop 0 3 0 ?sim = (1, updateTrails (rk4Step ?sim 0))"
    by (subst update_loop.simps) (simp add: Let_def t)
  then show ?thesis
    by (simp add: update_run_def d)
qed

subsection \<open>Auxiliary facts: advantage estimation\<close>

lemma length_gae_loop: "length (gae_loop g l rs vs ds k lg adv) = length adv"
  by (induction k arbitrary: lg adv) (simp_all add: Let_def)

lemma gae_loop_spec:
  assumes "k \<le> length rs" and "length adv = length rs"
    and "lg = spec_advantage g l rs vs ds k"
    and "\<forall>t. k \<le> t \<and> t < length rs \<longrightarrow> adv ! t = spec_advantage g l rs vs ds t"
    and "t < length rs"
  shows "gae_loop g l rs vs ds k lg adv ! t = spec_advantage g l rs vs ds t"
  using assms
proof (induction k arbitrary: lg adv)
  case 0
  then show ?case by simp
next
  case (Suc k)
  define lg' where "lg' =
     rs ! k + g * (if k = length rs - 1 then 0 else vs ! (k + 1)) * (if ds ! k \<noteq> 0 then 0 else 1)
       - vs ! k + g * l * (if ds ! k \<noteq> 0 then 0 else 1) * lg"
  from Suc.prems have k: "k < length rs" by simp
  have sp: "lg' = spec_advantage g l rs vs ds k"
    using k Suc.prems(3)
    by (subst spec_advantage.simps) (simp add: lg'_def Let_def)
  have step: "gae_loop g l rs vs ds (Suc k) lg adv = gae_loop g l rs vs ds k lg' (adv[k := lg'])"
    by (simp add: Let_def lg'_def)
  have inv: "\<forall>t. k \<le> t \<and> t < length rs \<longrightarrow> adv[k := lg'] ! t = spec_advantage g l rs vs ds t"
  proof (intro allI impI)
    fix t assume t: "k \<le> t \<and> t < length rs"
    show "adv[k := lg'] ! t = spec_advantage g l rs vs ds t"
    proof (cases "t = k")
      case True
      with k Suc.prems(2) sp show ?thesis by simp
    next
      case False
      with t have "Suc k \<le> t \<and> t < length rs" by simp
      with Suc.prems(4) False show ?thesis by simp
    qed
  qed
  from k have kle: "k \<le> length rs" by simp
  from Suc.prems(2) have len: "length (adv[k := lg']) = length rs" by simp
  show ?case
    unfolding step by (rule Suc.IH [OF kle len sp inv Suc.prems(5)])
qed

lemma spec_advantage_end: "spec_advantage g l rs vs ds (length rs) = 0"
  by (subst spec_advantage.simps) simp

lemma computeGAE_advantages:
  "advantages (computeGAE ag rs vs ds) =
     gae_loop (gamma ag) (lam ag) rs vs ds (length rs) 0 (replicate (length rs) 0)"
  by (simp add: computeGAE_def Let_def)

lemma computeGAE_returns:
  "returns (computeGAE ag rs vs ds) =
     map (\<lambda>idx. advantages (computeGAE ag rs vs ds) ! idx + vs ! idx) [0..<length rs]"
  by (simp add: computeGAE_def Let_def length_gae_loop)

lemma computeGAE_spec:
  assumes "t < length rs"
  shows "advantages (computeGAE ag rs vs ds) ! t = spec_advantage (gamma ag) (lam ag) rs vs ds t"
  unfolding computeGAE_advantages
  by (rule gae_loop_spec) (simp_all add: spec_advantage_end assms)

lemma computeGAE_example:
  "computeGAE (PPOAgent od ad) [1, 1, 1] [0, 0, 0] [0, 0, 1] =
     \<lparr>advantages = [282504025 / 10 ^ 8, 19405 / 10 ^ 4, 1],
      returns = [282504025 / 10 ^ 8, 19405 / 10 ^ 4, 1]\<rparr>"
  by (simp add: computeGAE_def PPOAgent_def Let_def numeral_3_eq_3)

subsection \<open>Auxiliary facts: log-probabilities and minibatches\<close>

lemma gap_generic:
  fixes f k :: "real \<Rightarrow> real \<Rightarrow> real"
  assumes pt: "\<And>n l. f (exp l * n / (exp l + e)) l - f n l = k n l"
    and "length mu = length ls" and "length ls = length ns"
  shows "sum_list (map2 f
            (map2 (\<lambda>d s. d / (s + e))
               (map2 (-) (map2 (+) mu (map2 (*) (map exp ls) ns)) mu) (map exp ls)) ls)
         - sum_list (map2 f ns ls) = sum_list (map2 k ns ls)"
  using assms(2,3)
proof (induction mu ls ns rule: list_induct3)
  case Nil
  then show ?case by simp
next
  case (Cons m mu l ls n ns)
  from pt [of l n] Cons.IH show ?case by simp
qed

lemma logp_gap_lists:
  assumes "length mu = length ls" and "length ns = length ls"
  shows "sum_list (map2 (\<lambda>d l. - 0.5 * (d\<^sup>2 + (2 * l + ln (2 * pi))))
            (map2 (\<lambda>d s. d / (s + 1 / 10 ^ 8))
               (map2 (-) (map2 (+) mu (map2 (*) (map exp ls) ns)) mu) (map exp ls)) ls)
         - sum_list (map2 (\<lambda>n l. - 0.5 * (n\<^sup>2 + (2 * l + ln (2 * pi)))) ns ls)
         = sum_list (map2 (\<lambda>n (l::real). n\<^sup>2 * (1 - (exp l / (exp l + 1 / 10 ^ 8))\<^sup>2) / 2) ns ls)"
proof (rule gap_generic [OF _ assms(1) assms(2) [symmetric]])
  fix n l :: real
  have "(exp l * n / (exp l + 1 / 10 ^ 8))\<^sup>2 = n\<^sup>2 * (exp l / (exp l + 1 / 10 ^ 8))\<^sup>2"
    by (simp add: power_divide power_mult_distrib)
  then show "- 0.5 * ((exp l * n / (exp l + 1 / 10 ^ 8))\<^sup>2 + (2 * l + ln (2 * pi)))
             - - 0.5 * (n\<^sup>2 + (2 * l + ln (2 * pi)))
             = n\<^sup>2 * (1 - (exp l / (exp l + 1 / 10 ^ 8))\<^sup>2) / 2"
    by (simp only: algebra_simps) (simp add: field_simps)
qed

lemma gap_term_bounds:
  fixes n l :: real
  shows "0 \<le> n\<^sup>2 * (1 - (exp l / (exp l + 1 / 10 ^ 8))\<^sup>2) / 2"
    and "n\<^sup>2 * (1 - (exp l / (exp l + 1 / 10 ^ 8))\<^sup>2) / 2 \<le> n\<^sup>2 / exp l / 10 ^ 8"
proof -
  define s where "s = exp l"
  define e :: real where "e = 1 / 10 ^ 8"
  have s: "0 < s" and e: "0 < e" by (simp_all add: s_def e_def)
  define r where "r = s / (s + e)"
  from s e have r0: "0 < r" and r1: "r < 1" by (simp_all add: r_def)
  then have "r\<^sup>2 \<le> 1" by (simp add: power_le_one)
  then have a: "0 \<le> 1 - r\<^sup>2" by simp
  have "1 - r\<^sup>2 = (1 - r) * (1 + r)" by (simp add: power2_eq_square algebra_simps)
  also have "\<dots> \<le> (1 - r) * 2" using r0 r1 by (intro mult_left_mono) simp_all
  also have "1 - r = e / (s + e)" using s e by (simp add: r_def field_simps)
  also have "e / (s + e) \<le> e / s" using s e by (simp add: frac_le)
  finally have b: "1 - r\<^sup>2 \<le> e / s * 2" by simp
  from a show "0 \<le> n\<^sup>2 * (1 - (exp l / (exp l + 1 / 10 ^ 8))\<^sup>2) / 2"
    by (simp add: r_def s_def e_def)
  have "n\<^sup>2 * (1 - r\<^sup>2) / 2 \<le> n\<^sup>2 * (e / s * 2) / 2"
    using b by (intro divide_right_mono mult_left_mono) simp_all
  also have "\<dots> = n\<^sup>2 / s * e" by simp
  finally show "n\<^sup>2 * (1 - (exp l / (exp l + 1 / 10 ^ 8))\<^sup>2) / 2 \<le> n\<^sup>2 / exp l / 10 ^ 8"
    by (simp add: r_def s_def e_def)
qed

lemma gap_sum_bounds:
  fixes ns ls :: "real list"
  shows "0 \<le> sum_list (map2 (\<lambda>n l. n\<^sup>2 * (1 - (exp l / (exp l + 1 / 10 ^ 8))\<^sup>2) / 2) ns ls)"
    and "sum_list (map2 (\<lambda>n l. n\<^sup>2 * (1 - (exp l / (exp l + 1 / 10 ^ 8))\<^sup>2) / 2) ns ls)
           \<le> sum_list (map2 (\<lambda>n l. n\<^sup>2 / exp l) ns ls) / 10 ^ 8"
proof -
  define k :: "real \<Rightarrow> real \<Rightarrow> real"
    where "k = (\<lambda>n l. n\<^sup>2 * (1 - (exp l / (exp l + 1 / 10 ^ 8))\<^sup>2) / 2)"
  define b :: "real \<Rightarrow> real \<Rightarrow> real" where "b = (\<lambda>n l. n\<^sup>2 / exp l)"
  define c :: real where "c = 10 ^ 8"
  have k0: "0 \<le> k n l" and kb: "k n l \<le> b n l / c" for n l
    unfolding k_def b_def c_def by (rule gap_term_bounds)+
  have "0 \<le> sum_list (map2 k ns ls)"
    by (induction ns ls rule: list_induct2') (simp_all add: k0)
  then show "0 \<le> sum_list (map2 (\<lambda>n l. n\<^sup>2 * (1 - (exp l / (exp l + 1 / 10 ^ 8))\<^sup>2) / 2) ns ls)"
    unfolding k_def .
  have "sum_list (map2 k ns ls) \<le> sum_list (map2 b ns ls) / c"
  proof (induction ns ls rule: list_induct2')
    case (4 n ns l ls)
    from kb [of n l] 4 show ?case by (simp add: add_divide_distrib)
  qed simp_all
  then show "sum_list (map2 (\<lambda>n l. n\<^sup>2 * (1 - (exp l / (exp l + 1 / 10 ^ 8))\<^sup>2) / 2) ns ls)
           \<le> sum_list (map2 (\<lambda>n l. n\<^sup>2 / exp l) ns ls) / 10 ^ 8"
    unfolding k_def b_def c_def .
qed

lemma logp_gap:
  assumes "length mu = length (actorLogStd ag)" and "length noise = length (actorLogStd ag)"
  shows "computeLosses_logp ag mu (fst (getAction ag mu v noise)) - fst (snd (getAction ag mu v noise)) =
         sum_list (map2 (\<lambda>n l. n\<^sup>2 * (1 - (exp l / (exp l + 1 / 10 ^ 8))\<^sup>2) / 2)
                    noise (actorLogStd ag))"
  unfolding computeLosses_logp_def getAction_def Let_def fst_conv snd_conv
  by (rule logp_gap_lists [OF assms])

lemma logp_example:
  "computeLosses_logp ((PPOAgent 4 1)\<lparr>actorLogStd := [ln (1 / 10 ^ 8)]\<rparr>) [0]
      (fst (getAction ((PPOAgent 4 1)\<lparr>actorLogStd := [ln (1 / 10 ^ 8)]\<rparr>) [0] 0 [2]))
   - fst (snd (getAction ((PPOAgent 4 1)\<lparr>actorLogStd := [ln (1 / 10 ^ 8)]\<rparr>) [0] 0 [2])) = 3 / 2"
  by (simp add: computeLosses_logp_def getAction_def Let_def PPOAgent_def add_divide_distrib)

lemma length_fold_preserved:
  "(\<And>i d. length (F i d) = length d) \<Longrightarrow> length (fold F xs d) = length d"
  by (induction xs arbitrary: d) simp_all

lemma pole_fold_low:
  "k < 2 \<Longrightarrow>
   fold (\<lambda>i d. (d[2 + 2 * i := f i])[2 + 2 * i + 1 := g i]) [0..<n] d ! k = d ! k"
  by (induction n) simp_all

lemma pole_fold_pole:
  "i < n \<Longrightarrow> 2 + 2 * i + 1 < length d \<Longrightarrow>
   fold (\<lambda>i d. (d[2 + 2 * i := f i])[2 + 2 * i + 1 := g i]) [0..<n] d ! (2 + 2 * i) = f i \<and>
   fold (\<lambda>i d. (d[2 + 2 * i := f i])[2 + 2 * i + 1 := g i]) [0..<n] d ! (2 + 2 * i + 1) = g i"
proof (induction n)
  case 0
  then show ?case by simp
next
  case (Suc n)
  let ?r = "fold (\<lambda>i d. (d[2 + 2 * i := f i])[2 + 2 * i + 1 := g i]) [0..<n] d"
  have len: "length ?r = length d" by (rule length_fold_preserved) simp
  show ?case
  proof (cases "i = n")
    case True
    with Suc.prems len show ?thesis by simp
  next
    case False
    with Suc.prems have "i < n" by simp
    with Suc have "?r ! (2 + 2 * i) = f i \<and> ?r ! (2 + 2 * i + 1) = g i" by simp
    with False \<open>i < n\<close> show ?thesis by simp
  qed
qed

lemma computeDerivatives_fold:
  "computeDerivatives sim st force =
     fold (\<lambda>i d. (d[2 + 2 * i := st ! (2 + 2 * i + 1)])
                     [2 + 2 * i + 1 :=
                        - (gravity sim / L sim) * sin (st ! (2 + 2 * i))
                        - (force / (massCart sim + real_of_int (numPoles sim) * massPole sim) / L sim)
                            * cos (st ! (2 + 2 * i))])
          [0..<nat (numPoles sim)]
          (((replicate (length st) 0)[0 := st ! 1])
             [1 := force / (massCart sim + real_of_int (numPoles sim) * massPole sim)])"
  unfolding computeDerivatives_def Let_def ..

lemma length_computeDerivatives: "length (computeDerivatives sim st force) = length st"
  unfolding computeDerivatives_fold
  by (subst length_fold_preserved) simp_all

lemma computeDerivatives_cart:
  assumes "2 \<le> length st"
  shows "computeDerivatives sim st force ! 0 = st ! 1"
    and "computeDerivatives sim st force ! 1 =
           force / (massCart sim + real_of_int (numPoles sim) * massPole sim)"
proof -
  from assms have l: "0 < length st" "1 < length st" by linarith+
  show "computeDerivatives sim st force ! 0 = st ! 1"
    unfolding computeDerivatives_fold using l by (subst pole_fold_low) simp_all
  show "computeDerivatives sim st force ! 1 =
           force / (massCart sim + real_of_int (numPoles sim) * massPole sim)"
    unfolding computeDerivatives_fold using l by (subst pole_fold_low) simp_all
qed

lemma computeDerivatives_pole:
  assumes "i < nat (numPoles sim)" and "2 + 2 * i + 1 < length st"
  shows "computeDerivatives sim st force ! (2 + 2 * i) = st ! (2 + 2 * i + 1)"
    and "computeDerivatives sim st force ! (2 + 2 * i + 1) =
           - (gravity sim / L sim) * sin (st ! (2 + 2 * i))
           - (force / (massCart sim + real_of_int (numPoles sim) * massPole sim) / L sim)
               * cos (st ! (2 + 2 * i))"
proof -
  have len: "2 + 2 * i + 1 < length (((replicate (length st) (0::real))[0 := st ! 1])[1 := a])" for a
    using assms by simp
  note p = pole_fold_pole [OF assms(1) len]
  show "computeDerivatives sim st force ! (2 + 2 * i) = st ! (2 + 2 * i + 1)"
    unfolding computeDerivatives_fold by (rule p [THEN conjunct1])
  show "computeDerivatives sim st force ! (2 + 2 * i + 1) =
           - (gravity sim / L sim) * sin (st ! (2 + 2 * i))
           - (force / (massCart sim + real_of_int (numPoles sim) * massPole sim) / L sim)
               * cos (st ! (2 + 2 * i))"
    unfolding computeDerivatives_fold by (rule p [THEN conjunct2])
qed

lemma pageSimulator_configured: "configured (pageSimulator n st)"
  by (simp add: configured_def pageSimulator_def)

lemma length_reset_state: "length (state (reset sim rnd)) = length (state sim)"
  unfolding reset_def Let_def initializeTrails_def
  by (simp add: length_fold_preserved)

lemma reset_fields:
  "numPoles (reset sim rnd) = numPoles sim"
  "configured (reset sim rnd) = configured sim"
  by (simp_all add: reset_def Let_def initializeTrails_def configured_def)

lemma constructor_ok:
  assumes "- 1 \<le> n"
  shows "\<exists>sim. VerticalChainSimulator cv n rnd = Inr sim \<and> numPoles sim = n \<and>
           configured sim \<and> state_ok sim"
proof -
  let ?s0 = "\<lparr>canvas = cv, numPoles = n, gravity = 9.8, dt = 0.02,
              massCart = 1.0, massPole = 0.1, L = 1.0, state = replicate (nat (2 + 2 * n)) 0,
              xThreshold = 2.4, scale = 100, cartWidth = 0.8 * 100,
              cartHeight = 0.4 * 100, groundY = height cv - 100, trails = []\<rparr>"
  let ?sim = "initializeTrails (reset ?s0 rnd)"
  from assms have "VerticalChainSimulator cv n rnd = Inr ?sim"
    by (simp add: VerticalChainSimulator_def Float32Array_def)
  moreover have "numPoles ?sim = n"
    by (simp add: initializeTrails_def reset_fields)
  moreover have "configured ?s0" by (simp add: configured_def)
  then have "configured ?sim"
    using reset_fields(2) [of ?s0 rnd] by (simp add: initializeTrails_def configured_def)
  moreover have "state_ok ?sim"
    using assms length_reset_state [of ?s0 rnd]
    by (simp add: state_ok_def initializeTrails_def reset_fields)
  ultimately show ?thesis by blast
qed

lemma constructor_zero:
  "VerticalChainSimulator \<lparr>width = 800, height = 600\<rparr> 0 rnd = Inr (pageSimulator 0 [0, 0])"
proof -
  have r: "replicate (nat (2 + 2 * 0)) (0::real) = [0, 0]"
    by (simp add: numeral_2_eq_2)
  show ?thesis
    unfolding VerticalChainSimulator_def Float32Array_def r
    by (simp add: reset_def initializeTrails_def pageSimulator_def Let_def)
qed

lemma rk4Step_state_ok: "state_ok sim \<Longrightarrow> state_ok (rk4Step sim force)"
  by (simp add: state_ok_def length_rk4Step)

lemma updateTrails_state_ok: "state_ok sim \<Longrightarrow> state_ok (updateTrails sim)"
  by (simp add: state_ok_def)

lemma computeGAE_advantages_spec:
  "advantages (computeGAE ag rs vs ds) =
     map (spec_advantage (gamma ag) (lam ag) rs vs ds) [0..<length rs]"
proof (rule nth_equalityI)
  show "length (advantages (computeGAE ag rs vs ds)) =
        length (map (spec_advantage (gamma ag) (lam ag) rs vs ds) [0..<length rs])"
    by (simp add: computeGAE_advantages length_gae_loop)
next
  fix t assume "t < length (advantages (computeGAE ag rs vs ds))"
  then have t: "t < length rs" by (simp add: computeGAE_advantages length_gae_loop)
  then show "advantages (computeGAE ag rs vs ds) ! t =
             map (spec_advantage (gamma ag) (lam ag) rs vs ds) [0..<length rs] ! t"
    by (simp add: computeGAE_spec)
qed

lemma handcheck_not_normalized:
  "(let adv = advantages (computeGAE (PPOAgent 4 1) [1, 1, 1] [0, 0, 0] [0, 0, 1]);
        mean = foldl (+) 0 adv / real (length adv);
        std = sqrt (foldl (+) 0 (map (\<lambda>a. (a - mean)\<^sup>2) adv) / real (length adv))
    in mean \<noteq> 0 \<and> adv \<noteq> map (\<lambda>a. (a - mean) / std) adv)"
proof -
  define adv where "adv = advantages (computeGAE (PPOAgent 4 1) [1, 1, 1] [0, 0, 0] [0, 0, 1])"
  define mean where "mean = foldl (+) 0 adv / real (length adv)"
  define std where "std = sqrt (foldl (+) 0 (map (\<lambda>a. (a - mean)\<^sup>2) adv) / real (length adv))"
  have a: "adv = [282504025 / 10 ^ 8, 19405 / 10 ^ 4, 1]"
    by (simp add: adv_def computeGAE_example)
  have m: "mean = (282504025 / 10 ^ 8 + 19405 / 10 ^ 4 + 1) / 3"
    by (simp add: mean_def a)
  then have m1: "1 < mean" and m0: "mean \<noteq> 0" by simp_all
  have "0 \<le> std" by (simp add: std_def a)
  with m1 have "(1 - mean) / std \<le> 0"
    by (simp add: divide_nonpos_nonneg)
  moreover have "map (\<lambda>a. (a - mean) / std) adv ! 2 = (1 - mean) / std" and "adv ! 2 = 1"
    unfolding a by simp_all
  ultimately have "map (\<lambda>a. (a - mean) / std) adv ! 2 \<noteq> adv ! 2"
    by linarith
  then have "adv \<noteq> map (\<lambda>a. (a - mean) / std) adv" by metis
  with m0 show ?thesis
    unfolding Let_def adv_def [symmetric] mean_def [symmetric] std_def [symmetric]
    by simp
qed

lemma batch_count_step:
  assumes "0 < bs" and "i < n"
  shows "(n - i + bs - 1) div bs = Suc ((n - (i + bs) + bs - 1) div bs)"
proof (cases "i + bs \<le> n")
  case True
  define a where "a = n - (i + bs) + bs - 1"
  from True assms have "n - i + bs - 1 = a + bs" by (simp add: a_def)
  then have "(n - i + bs - 1) div bs = Suc (a div bs)"
    using assms(1) by (simp only: div_add_self2)
  then show ?thesis by (simp only: a_def)
next
  case False
  with assms have "bs \<le> n - i + bs - 1" and "n - i + bs - 1 < bs + bs" by simp_all
  then have "(n - i + bs - 1) div bs = 1"
    using assms(1) by (simp add: div_nat_eqI)
  moreover from False assms(1) have "(n - (i + bs) + bs - 1) div bs = 0" by simp
  ultimately show ?thesis by simp
qed

lemma minibatches_prefix:
  assumes "0 < bs"
  shows "\<exists>tr r. minibatches pass ind n bs i p = Some (tr, r) \<and>
           length tr \<le> (n - i + bs - 1) div bs \<and>
           (\<forall>j < length tr. tr ! j = slice ind (i + j * bs) (i + j * bs + bs)) \<and>
           (\<not> isl r \<longrightarrow> length tr = (n - i + bs - 1) div bs) \<and>
           ((\<forall>b q. \<not> isl (pass b q)) \<longrightarrow> \<not> isl r)"
proof (induction "n - i" arbitrary: i p rule: less_induct)
  case less
  show ?case
  proof (cases "i < n")
    case False
    then have "minibatches pass ind n bs i p = Some ([], Inr p)"
      by (subst minibatches.simps) simp
    moreover from False assms have "(n - i + bs - 1) div bs = 0" by simp
    ultimately show ?thesis by simp
  next
    case True
    let ?b = "slice ind i (i + bs)"
    note K = batch_count_step [OF assms True]
    show ?thesis
    proof (cases "pass ?b p")
      case (Inl e)
      then have i: "isl (pass ?b p)" by simp
      from True Inl have "minibatches pass ind n bs i p = Some ([?b], pass ?b p)"
        by (subst minibatches.simps) (simp add: Let_def)
      moreover have "length [?b] \<le> (n - i + bs - 1) div bs"
        unfolding K by simp
      moreover have "\<forall>j < length [?b]. [?b] ! j = slice ind (i + j * bs) (i + j * bs + bs)"
        by simp
      moreover note i
      ultimately show ?thesis by blast
    next
      case (Inr p')
      from True assms have "n - (i + bs) < n - i" by simp
      from less [OF this, of p']
      obtain tr r where rec: "minibatches pass ind n bs (i + bs) p' = Some (tr, r)"
        and len: "length tr \<le> (n - (i + bs) + bs - 1) div bs"
        and nth: "\<forall>j < length tr. tr ! j = slice ind (i + bs + j * bs) (i + bs + j * bs + bs)"
        and full: "\<not> isl r \<longrightarrow> length tr = (n - (i + bs) + bs - 1) div bs"
        and ok: "(\<forall>b q. \<not> isl (pass b q)) \<longrightarrow> \<not> isl r"
        by blast
      from True Inr rec have eq: "minibatches pass ind n bs i p = Some (?b # tr, r)"
        by (subst minibatches.simps) (simp add: Let_def)
      have "(?b # tr) ! j = slice ind (i + j * bs) (i + j * bs + bs)" if "j < length (?b # tr)" for j
      proof (cases j)
        case 0
        then show ?thesis by simp
      next
        case (Suc j')
        with that nth have "tr ! j' = slice ind (i + bs + j' * bs) (i + bs + j' * bs + bs)" by simp
        with Suc show ?thesis by (simp add: ac_simps)
      qed
      then have nth': "\<forall>j < length (?b # tr). (?b # tr) ! j = slice ind (i + j * bs) (i + j * bs + bs)"
        by blast
      from len have len': "length (?b # tr) \<le> (n - i + bs - 1) div bs"
        unfolding K by simp
      from full have full': "\<not> isl r \<longrightarrow> length (?b # tr) = (n - i + bs - 1) div bs"
        unfolding K by simp
      from eq len' nth' full' ok show ?thesis by blast
    qed
  qed
qed

lemma epoch_loop_prefix:
  assumes "0 < bs"
  shows "\<exists>sched r. epoch_loop pass ind n bs k p = Some (sched, r) \<and>
           length sched \<le> k \<and>
           (\<forall>e < length sched.
              length (sched ! e) \<le> (n + bs - 1) div bs \<and>
              (\<forall>j < length (sched ! e). sched ! e ! j = slice ind (j * bs) (j * bs + bs))) \<and>
           (\<not> isl r \<longrightarrow>
              sched = replicate k (map (\<lambda>j. slice ind (j * bs) (j * bs + bs))
                                       [0..<(n + bs - 1) div bs])) \<and>
           ((\<forall>b q. \<not> isl (pass b q)) \<longrightarrow> \<not> isl r)"
proof (induction k arbitrary: p)
  case 0
  show ?case by simp
next
  case (Suc k)
  define good where "good = (\<lambda>tr. length tr \<le> (n + bs - 1) div bs \<and>
              (\<forall>j < length tr. tr ! j = slice ind (j * bs) (j * bs + bs)))"
  define B where "B = map (\<lambda>j. slice ind (j * bs) (j * bs + bs)) [0..<(n + bs - 1) div bs]"
  from minibatches_prefix [OF assms, of pass ind n 0 p]
  obtain tr r0 where mb: "minibatches pass ind n bs 0 p = Some (tr, r0)"
    and g: "good tr"
    and full: "\<not> isl r0 \<longrightarrow> length tr = (n + bs - 1) div bs"
    and ok0: "(\<forall>b q. \<not> isl (pass b q)) \<longrightarrow> \<not> isl r0"
    unfolding good_def by auto
  show ?case
  proof (cases r0)
    case (Inl e)
    with mb have eq: "epoch_loop pass ind n bs (Suc k) p = Some ([tr], r0)" by simp
    have "\<forall>e < length [tr]. good ([tr] ! e)" using g by simp
    moreover from Inl have "isl r0" by simp
    moreover have "length [tr] \<le> Suc k" by simp
    ultimately show ?thesis using eq ok0 unfolding good_def by blast
  next
    case (Inr p')
    then have "\<not> isl r0" by simp
    with full g have trB: "tr = B"
      unfolding good_def B_def by (intro nth_equalityI) simp_all
    from Suc [of p']
    obtain sched r where rec: "epoch_loop pass ind n bs k p' = Some (sched, r)"
      and len: "length sched \<le> k"
      and gs: "\<forall>e < length sched. good (sched ! e)"
      and fulls: "\<not> isl r \<longrightarrow> sched = replicate k B"
      and ok: "(\<forall>b q. \<not> isl (pass b q)) \<longrightarrow> \<not> isl r"
      unfolding good_def B_def by blast
    from mb Inr rec have eq: "epoch_loop pass ind n bs (Suc k) p = Some (tr # sched, r)" by simp
    have "good ((tr # sched) ! e)" if "e < length (tr # sched)" for e
      using that g gs by (cases e) simp_all
    then have gs': "\<forall>e < length (tr # sched). good ((tr # sched) ! e)" by blast
    from len have len': "length (tr # sched) \<le> Suc k" by simp
    from fulls trB have fulls': "\<not> isl r \<longrightarrow> tr # sched = replicate (Suc k) B" by simp
    from eq len' gs' fulls' ok show ?thesis unfolding good_def B_def by blast
  qed
qed









lemma rk4Step_at_rest:
  "state (rk4Step (pageSimulator 1 [5 / 2, 0, 0, 0]) 0) = [5 / 2, 0, 0, 0]"
  by (simp add: rk4Step_def pageSimulator_def computeDerivatives_def vectorAdd_def
      vectorScale_def vectorAddMultiple_def Let_def)

section \<open>The claims\<close>

text \<open>
  C2. For rewards, values and dones of one length \<open>T\<close> and every \<open>t < T\<close>, the advantage
  that \<^verbatim>\<open>computeGAE\<close> returns at \<open>t\<close> is the one of the backward recursion of the
  specification with \<open>\<gamma> = 0.99\<close> and \<open>\<lambda> = 0.95\<close> (next value 0 at \<open>T - 1\<close>, the mask 0
  where \<^verbatim>\<open>dones[t]\<close> holds, advantage 0 at \<open>T\<close>), and the return at \<open>t\<close> is that advantage
  plus \<^verbatim>\<open>values[t]\<close>; both arrays have length \<open>T\<close>.
\<close>

theorem computeGAE_recursion:
  assumes "length vals = length rewards" and "length dones = length rewards"
    and "t < length rewards"
  shows "length (advantages (computeGAE (PPOAgent od ad) rewards vals dones)) = length rewards \<and>
         length (returns (computeGAE (PPOAgent od ad) rewards vals dones)) = length rewards \<and>
         advantages (computeGAE (PPOAgent od ad) rewards vals dones) ! t =
           spec_advantage 0.99 0.95 rewards vals dones t \<and>
         returns (computeGAE (PPOAgent od ad) rewards vals dones) ! t =
           advantages (computeGAE (PPOAgent od ad) rewards vals dones) ! t + vals ! t"
proof -
  have g: "gamma (PPOAgent od ad) = 0.99" "lam (PPOAgent od ad) = 0.95"
    by (simp_all add: PPOAgent_def)
  from computeGAE_spec [OF assms(3), of "PPOAgent od ad" vals dones]
  have "advantages (computeGAE (PPOAgent od ad) rewards vals dones) ! t =
           spec_advantage 0.99 0.95 rewards vals dones t"
    by (simp only: g)
  moreover have "returns (computeGAE (PPOAgent od ad) rewards vals dones) ! t =
           advantages (computeGAE (PPOAgent od ad) rewards vals dones) ! t + vals ! t"
    using assms(3) by (simp add: computeGAE_returns)
  ultimately show ?thesis
    by (simp add: computeGAE_returns computeGAE_advantages length_gae_loop)
qed

theorem computeGAE_recursion_witness:
  "advantages (computeGAE (PPOAgent 4 1) [1, 1] [0, 0] [0, 1]) ! 1 =
     spec_advantage 0.99 0.95 [1, 1] [0, 0] [0, 1] 1 \<and>
   returns (computeGAE (PPOAgent 4 1) [1, 1] [0, 0] [0, 1]) ! 1 =
     advantages (computeGAE (PPOAgent 4 1) [1, 1] [0, 0] [0, 1]) ! 1 + [0, 0] ! 1"
  using computeGAE_recursion [of "[0, 0]" "[1, 1]" "[0, 1]" 1 4 1] by simp

text \<open>
  C6, as stated, at a concrete input: with a standard deviation of \<open>10\<^sup>-\<^sup>8\<close>, mean 0 and
  noise 2, the recomputed log-probability exceeds the one returned at sampling time by
  \<open>3 / 2\<close>.
\<close>

theorem logProb_consistency_counterexample:
  "computeLosses_logp ((PPOAgent 4 1)\<lparr>actorLogStd := [ln (1 / 10 ^ 8)]\<rparr>) [0]
      (fst (getAction ((PPOAgent 4 1)\<lparr>actorLogStd := [ln (1 / 10 ^ 8)]\<rparr>) [0] 0 [2]))
   - fst (snd (getAction ((PPOAgent 4 1)\<lparr>actorLogStd := [ln (1 / 10 ^ 8)]\<rparr>) [0] 0 [2])) = 3 / 2"
  by (rule logp_example)

text \<open>
  C6 (as amended). With the action \<open>mean + exp logStd * noise\<close> that \<^verbatim>\<open>getAction\<close> returns and
  unchanged parameters, the log-probability that \<^verbatim>\<open>computeLosses\<close> recomputes is not below
  the one returned at sampling time and exceeds it by exactly half the sum over the action
  dimensions of \<open>noise\<^sup>2 * (1 - (std / (std + 10\<^sup>-\<^sup>8))\<^sup>2)\<close>, which is at most
  \<open>10\<^sup>-\<^sup>8\<close> times the sum of \<open>noise\<^sup>2 / std\<close>: the difference comes from the \<open>10\<^sup>-\<^sup>8\<close> that
  the update path adds to the standard deviation before dividing.
\<close>

theorem logProb_consistency:
  assumes "length mu = length (actorLogStd ag)" and "length noise = length (actorLogStd ag)"
  shows "computeLosses_logp ag mu (fst (getAction ag mu v noise)) - fst (snd (getAction ag mu v noise)) =
           sum_list (map2 (\<lambda>n l. n\<^sup>2 * (1 - (exp l / (exp l + 1 / 10 ^ 8))\<^sup>2) / 2)
                      noise (actorLogStd ag)) \<and>
         0 \<le> computeLosses_logp ag mu (fst (getAction ag mu v noise))
               - fst (snd (getAction ag mu v noise)) \<and>
         computeLosses_logp ag mu (fst (getAction ag mu v noise)) - fst (snd (getAction ag mu v noise))
           \<le> sum_list (map2 (\<lambda>n l. n\<^sup>2 / exp l) noise (actorLogStd ag)) / 10 ^ 8"
  unfolding logp_gap [OF assms]
  using gap_sum_bounds [of noise "actorLogStd ag"] by blast

theorem logProb_consistency_witness:
  "0 \<le> computeLosses_logp (PPOAgent 4 1) [0] (fst (getAction (PPOAgent 4 1) [0] 0 [1]))
          - fst (snd (getAction (PPOAgent 4 1) [0] 0 [1])) \<and>
   computeLosses_logp (PPOAgent 4 1) [0] (fst (getAction (PPOAgent 4 1) [0] 0 [1]))
      - fst (snd (getAction (PPOAgent 4 1) [0] 0 [1])) \<le> 1 / exp (- 0.5) / 10 ^ 8"
  using logProb_consistency [of "[0]" "PPOAgent 4 1" "[1]" 0]
  by (simp add: PPOAgent_def)

text \<open>
  C1, as stated, at a concrete input: from the cart position 2.4 with cart velocity 1, one
  pole at rest upright and no force, 60 ms ask for \<open>\<lfloor>60 / 20\<rfloor> = 3\<close> steps, but the first
  step takes the cart to 2.42, past the threshold, and the loop stops after that one step.
\<close>

theorem update_steps_counterexample:
  "fst (update_run (pageSimulator 1 [12 / 5, 1, 0, 0]) 0 60) = 1 \<and>
   \<lfloor>60 / (dt (pageSimulator 1 [12 / 5, 1, 0, 0]) * 1000)\<rfloor> = (3::int)"
  by (rule update_early_exit)

text \<open>
  C1 (as amended). \<^verbatim>\<open>update\<close> performs at most \<open>\<lfloor>elapsedTime / (dt * 1000)\<rfloor>\<close> RK4 steps of
  the fixed size \<open>dt = 0.02\<close>, dropping the remainder: none when that number is not
  positive, and at least one when it is positive (the test for a terminal state comes
  after the step, so the first step is made from any state). The state it leaves is the
  one after exactly the number of steps performed. It stops right after the first step
  that leaves a terminal state: no state after an earlier step is terminal and, when
  fewer steps than \<open>\<lfloor>elapsedTime / 20\<rfloor>\<close> were performed, the state left is terminal.
\<close>

theorem update_steps:
  assumes "configured sim"
  shows "0 \<le> fst (update_run sim force elapsedTime) \<and>
         fst (update_run sim force elapsedTime) \<le> max 0 \<lfloor>elapsedTime / 20\<rfloor> \<and>
         update sim force elapsedTime =
           ((\<lambda>s. updateTrails (rk4Step s force)) ^^ nat (fst (update_run sim force elapsedTime))) sim \<and>
         (\<forall>j. 0 < j \<and> j < nat (fst (update_run sim force elapsedTime)) \<longrightarrow>
              \<not> isTerminal (((\<lambda>s. updateTrails (rk4Step s force)) ^^ j) sim)) \<and>
         (fst (update_run sim force elapsedTime) < \<lfloor>elapsedTime / 20\<rfloor> \<longrightarrow>
            isTerminal (update sim force elapsedTime)) \<and>
         (0 < \<lfloor>elapsedTime / 20\<rfloor> \<longrightarrow> 0 < fst (update_run sim force elapsedTime))"
proof -
  from assms have d: "dt sim * 1000 = 20" by (simp add: configured_def)
  obtain k sim' where r: "update_run sim force elapsedTime = (k, sim')"
    by (cases "update_run sim force elapsedTime")
  then have l: "update_loop force \<lfloor>elapsedTime / 20\<rfloor> 0 sim = (k, sim')"
    by (simp add: update_run_def Let_def d)
  note st = update_loop_steps [where F = "\<lambda>s. updateTrails (rk4Step s force)", OF l refl,
      unfolded diff_zero]
  then show ?thesis
    unfolding update_def r fst_conv snd_conv .
qed

theorem update_steps_witness:
  "configured (pageSimulator 1 [12 / 5, 1, 0, 0]) \<and>
   isTerminal (update (pageSimulator 1 [12 / 5, 1, 0, 0]) 0 60) \<and>
   isTerminal (pageSimulator 1 [5 / 2, 0, 0, 0]) \<and>
   fst (update_run (pageSimulator 1 [5 / 2, 0, 0, 0]) 0 100) = 1"
proof -
  have c: "configured (pageSimulator 1 st)" for st
    by (simp add: configured_def pageSimulator_def)
  have k: "fst (update_run (pageSimulator 1 [12 / 5, 1, 0, 0]) 0 60) < \<lfloor>60 / 20\<rfloor>"
    using update_early_exit by simp
  from update_steps [OF c, of "[12 / 5, 1, 0, 0]" 0 60] k
  have a: "isTerminal (update (pageSimulator 1 [12 / 5, 1, 0, 0]) 0 60)" by blast
  let ?s = "pageSimulator 1 [5 / 2, 0, 0, 0]"
  let ?k = "fst (update_run ?s 0 100)"
  have x: "xThreshold ?s = 2.4" "state ?s = [5 / 2, 0, 0, 0]" by (simp_all add: pageSimulator_def)
  have t0: "isTerminal ?s" by (simp add: isTerminal_def x)
  have t1: "isTerminal (((\<lambda>s. updateTrails (rk4Step s 0)) ^^ 1) ?s)"
    by (simp add: isTerminal_def rk4Step_at_rest x)
  have f: "0 < \<lfloor>100 / 20 :: real\<rfloor>" by simp
  from update_steps [OF c, of "[5 / 2, 0, 0, 0]" 0 100] f
  have pos: "0 < ?k"
    and no: "\<forall>j. 0 < j \<and> j < nat ?k \<longrightarrow>
               \<not> isTerminal (((\<lambda>s. updateTrails (rk4Step s 0)) ^^ j) ?s)"
    by blast+
  have "\<not> 1 < nat ?k"
  proof
    assume "1 < nat ?k"
    then have "0 < (1::nat) \<and> 1 < nat ?k" by simp
    with no have "\<not> isTerminal (((\<lambda>s. updateTrails (rk4Step s 0)) ^^ 1) ?s)" by blast
    with t1 show False by contradiction
  qed
  with pos have b: "?k = 1" by linarith
  from c a t0 b show ?thesis by blast
qed

text \<open>
  C3, as stated, at its own input: the advantage at index 1 is not 1.
\<close>

theorem computeGAE_handcheck_counterexample:
  "advantages (computeGAE (PPOAgent 4 1) [1, 1, 1] [0, 0, 0] [0, 0, 1]) ! 1 \<noteq> 1"
  by (simp add: computeGAE_example)

text \<open>
  C3 (as amended). For rewards \<open>[1, 1, 1]\<close>, values \<open>[0, 0, 0]\<close> and dones \<open>[0, 0, 1]\<close>, with
  \<open>\<gamma> = 0.99\<close> and \<open>\<lambda> = 0.95\<close>, \<^verbatim>\<open>computeGAE\<close> returns the advantages
  \<open>[2.82504025, 1.9405, 1]\<close>: the advantage at 2 is 1, the one at 1 is
  \<open>1 + 0.99 * 0.95 * 1 * 1\<close> (the mask at 1 is 1, since \<^verbatim>\<open>dones[1]\<close> is 0), the one at 0 is
  \<open>1 + 0.99 * 0.95 * 1.9405\<close>; the returns are the same numbers, and these are the values
  of the recursion of the specification.
\<close>

theorem computeGAE_handcheck:
  "advantages (computeGAE (PPOAgent od ad) [1, 1, 1] [0, 0, 0] [0, 0, 1]) =
     [1 + 0.99 * 0.95 * (1 + 0.99 * 0.95 * 1), 1 + 0.99 * 0.95 * 1, 1] \<and>
   returns (computeGAE (PPOAgent od ad) [1, 1, 1] [0, 0, 0] [0, 0, 1]) =
     [1 + 0.99 * 0.95 * (1 + 0.99 * 0.95 * 1), 1 + 0.99 * 0.95 * 1, 1] \<and>
   advantages (computeGAE (PPOAgent od ad) [1, 1, 1] [0, 0, 0] [0, 0, 1]) =
     map (spec_advantage 0.99 0.95 [1, 1, 1] [0, 0, 0] [0, 0, 1]) [0, 1, 2]"
proof -
  have s0: "spec_advantage 0.99 0.95 [1, 1, 1] [0, 0, 0] [0, 0, 1] 0 = 282504025 / 10 ^ 8"
    using computeGAE_spec [of 0 "[1, 1, 1]" "PPOAgent od ad" "[0, 0, 0]" "[0, 0, 1]"]
    by (simp add: computeGAE_example) (simp add: PPOAgent_def)
  have s1: "spec_advantage 0.99 0.95 [1, 1, 1] [0, 0, 0] [0, 0, 1] 1 = 19405 / 10 ^ 4"
    using computeGAE_spec [of 1 "[1, 1, 1]" "PPOAgent od ad" "[0, 0, 0]" "[0, 0, 1]"]
    by (simp add: computeGAE_example) (simp add: PPOAgent_def)
  have s2: "spec_advantage 0.99 0.95 [1, 1, 1] [0, 0, 0] [0, 0, 1] 2 = 1"
    using computeGAE_spec [of 2 "[1, 1, 1]" "PPOAgent od ad" "[0, 0, 0]" "[0, 0, 1]"]
    by (simp add: computeGAE_example) (simp add: PPOAgent_def)
  have m: "map (spec_advantage 0.99 0.95 [1, 1, 1] [0, 0, 0] [0, 0, 1]) [0, 1, 2] =
           [282504025 / 10 ^ 8, 19405 / 10 ^ 4, 1]"
    by (simp only: list.map s0 s1 s2)
  have a: "advantages (computeGAE (PPOAgent od ad) [1, 1, 1] [0, 0, 0] [0, 0, 1]) =
           [282504025 / 10 ^ 8, 19405 / 10 ^ 4, 1]"
    and r: "returns (computeGAE (PPOAgent od ad) [1, 1, 1] [0, 0, 0] [0, 0, 1]) =
           [282504025 / 10 ^ 8, 19405 / 10 ^ 4, 1]"
    by (simp_all add: computeGAE_example)
  have n: "[1 + 0.99 * 0.95 * (1 + 0.99 * 0.95 * 1), 1 + 0.99 * 0.95 * 1, 1] =
           [282504025 / 10 ^ 8, 19405 / 10 ^ 4, 1::real]"
    by simp
  show ?thesis
    unfolding m a r n by simp
qed

text \<open>
  C4. For a state vector of length \<open>2 + 2N\<close> and every force, \<^verbatim>\<open>computeDerivatives\<close> returns
  the cart velocity at index 0, the cart acceleration
  \<open>a = force / (massCart + N * massPole)\<close> at index 1 and, for every pole \<open>i\<close>, the
  angular velocity of the pole at index \<open>2 + 2i\<close> and
  \<open>- (g / L) * sin \<theta> - (a / L) * cos \<theta>\<close> at index \<open>3 + 2i\<close>; these two entries are the same
  for every other state vector of that length with the same angle and angular velocity
  of pole \<open>i\<close>, whatever the other poles and the cart do.
\<close>

theorem computeDerivatives_formula:
  assumes "configured sim" and "0 \<le> numPoles sim"
    and "length st = 2 + 2 * nat (numPoles sim)"
    and "a = force / (massCart sim + real_of_int (numPoles sim) * massPole sim)"
  shows "computeDerivatives sim st force ! 0 = st ! 1 \<and>
         computeDerivatives sim st force ! 1 = a \<and>
         (\<forall>i < nat (numPoles sim).
            computeDerivatives sim st force ! (2 + 2 * i) = st ! (3 + 2 * i) \<and>
            computeDerivatives sim st force ! (3 + 2 * i) =
              - (gravity sim / L sim) * sin (st ! (2 + 2 * i)) - (a / L sim) * cos (st ! (2 + 2 * i)) \<and>
            (\<forall>st'. length st' = length st \<and> st' ! (2 + 2 * i) = st ! (2 + 2 * i) \<and>
                   st' ! (3 + 2 * i) = st ! (3 + 2 * i) \<longrightarrow>
               computeDerivatives sim st' force ! (2 + 2 * i) =
                 computeDerivatives sim st force ! (2 + 2 * i) \<and>
               computeDerivatives sim st' force ! (3 + 2 * i) =
                 computeDerivatives sim st force ! (3 + 2 * i)))"
proof (intro conjI allI impI)
  from assms(3) have two: "2 \<le> length st" by simp
  show "computeDerivatives sim st force ! 0 = st ! 1"
    by (rule computeDerivatives_cart(1) [OF two])
  show "computeDerivatives sim st force ! 1 = a"
    unfolding assms(4) by (rule computeDerivatives_cart(2) [OF two])
next
  fix i assume i: "i < nat (numPoles sim)"
  have e: "3 + 2 * i = 2 + 2 * i + 1" by simp
  from i assms(3) have len: "2 + 2 * i + 1 < length st" by simp
  show "computeDerivatives sim st force ! (2 + 2 * i) = st ! (3 + 2 * i)"
    unfolding e by (rule computeDerivatives_pole(1) [OF i len])
  show "computeDerivatives sim st force ! (3 + 2 * i) =
          - (gravity sim / L sim) * sin (st ! (2 + 2 * i)) - (a / L sim) * cos (st ! (2 + 2 * i))"
    unfolding e assms(4) by (rule computeDerivatives_pole(2) [OF i len])
  fix st' assume h: "length st' = length st \<and> st' ! (2 + 2 * i) = st ! (2 + 2 * i) \<and>
                   st' ! (3 + 2 * i) = st ! (3 + 2 * i)"
  with len have len': "2 + 2 * i + 1 < length st'" by simp
  from h show "computeDerivatives sim st' force ! (2 + 2 * i) =
                 computeDerivatives sim st force ! (2 + 2 * i)"
    by (simp only: computeDerivatives_pole(1) [OF i len] computeDerivatives_pole(1) [OF i len'] e [symmetric])
  from h show "computeDerivatives sim st' force ! (3 + 2 * i) =
                 computeDerivatives sim st force ! (3 + 2 * i)"
    by (simp only: computeDerivatives_pole(2) [OF i len] computeDerivatives_pole(2) [OF i len'] e)
qed

theorem computeDerivatives_formula_witness:
  "computeDerivatives (pageSimulator 1 [0, 0, 0, 0]) [0, 1, 0, 2] 11 ! 1 = 10 \<and>
   computeDerivatives (pageSimulator 1 [0, 0, 0, 0]) [0, 1, 0, 2] 11 ! 2 = 2 \<and>
   computeDerivatives (pageSimulator 1 [0, 0, 0, 0]) [0, 1, 0, 2] 11 ! 3 = - 10"
proof -
  have c: "configured (pageSimulator 1 [0, 0, 0, 0])"
    and n: "0 \<le> numPoles (pageSimulator 1 [0, 0, 0, 0])"
    and l: "length [0, 1, 0, 2 :: real] = 2 + 2 * nat (numPoles (pageSimulator 1 [0, 0, 0, 0]))"
    and a: "(10::real) = 11 / (massCart (pageSimulator 1 [0, 0, 0, 0]) +
              real_of_int (numPoles (pageSimulator 1 [0, 0, 0, 0])) * massPole (pageSimulator 1 [0, 0, 0, 0]))"
    by (simp_all add: configured_def pageSimulator_def)
  have g: "gravity (pageSimulator 1 [0, 0, 0, 0]) = 9.8" "L (pageSimulator 1 [0, 0, 0, 0]) = 1"
    "nat (numPoles (pageSimulator 1 [0, 0, 0, 0])) = 1"
    by (simp_all add: pageSimulator_def)
  from computeDerivatives_formula [OF c n l a]
  show ?thesis
    by (simp add: g)
qed

text \<open>
  C8, as stated, at a concrete input: asked for 0 poles, the constructor raises no error
  and builds a simulator with \<open>numPoles = 0\<close> and the state vector \<open>[0, 0]\<close>.
\<close>

theorem constructor_no_check_counterexample:
  "VerticalChainSimulator \<lparr>width = 800, height = 600\<rparr> 0 (\<lambda>k. 1 / 2) =
     Inr (pageSimulator 0 [0, 0]) \<and>
   numPoles (pageSimulator 0 [0, 0]) < 1"
  by (simp add: constructor_zero) (simp add: pageSimulator_def)

text \<open>
  C8 (as amended). The constructor does not check the pole count. It fails only for a
  count of at most \<open>-2\<close>, with the RangeError of allocating a state vector of negative
  length; for every count from \<open>-1\<close> on, so also for 0 and \<open>-1\<close>, it builds a simulator with
  that \<open>numPoles\<close> and a state vector of length \<open>2 + 2 * numPoles\<close>.
\<close>

theorem constructor_range:
  "(n \<le> - 2 \<longrightarrow> VerticalChainSimulator cv n rnd = Inl RangeError) \<and>
   (- 1 \<le> n \<longrightarrow>
      (\<exists>sim. VerticalChainSimulator cv n rnd = Inr sim \<and> numPoles sim = n \<and>
             int (length (state sim)) = 2 + 2 * n))"
proof (intro conjI impI)
  assume "n \<le> - 2"
  then show "VerticalChainSimulator cv n rnd = Inl RangeError"
    by (simp add: VerticalChainSimulator_def Float32Array_def)
next
  assume "- 1 \<le> n"
  from constructor_ok [OF this, of cv rnd]
  show "\<exists>sim. VerticalChainSimulator cv n rnd = Inr sim \<and> numPoles sim = n \<and>
             int (length (state sim)) = 2 + 2 * n"
    by (auto simp: state_ok_def)
qed

theorem constructor_range_witness:
  "VerticalChainSimulator \<lparr>width = 800, height = 600\<rparr> (- 2) (\<lambda>k. 1 / 2) = Inl RangeError \<and>
   isl (VerticalChainSimulator \<lparr>width = 800, height = 600\<rparr> 0 (\<lambda>k. 1 / 2)) = False"
  using constructor_range [of "- 2" "\<lparr>width = 800, height = 600\<rparr>" "\<lambda>k. 1 / 2"]
    constructor_range [of 0 "\<lparr>width = 800, height = 600\<rparr>" "\<lambda>k. 1 / 2"]
  by auto

text \<open>
  C10. With the constructor's graphical constants (cart height \<open>0.4 * scale\<close>, link length
  \<open>1.0 * scale\<close>, \<open>scale = 100\<close>), some tip has \<^verbatim>\<open>tip.y >= groundY - 10\<close> exactly when, for
  some \<open>i\<close> from 1 to \<open>N\<close>, the cosines of the first \<open>i\<close> pole angles sum to at most \<open>-0.3\<close>;
  for one pole, exactly when \<open>cos \<theta>\<^sub>1 \<le> -0.3\<close>. The outcome does not change with the cart
  position or with the canvas.
\<close>

theorem tipNearGround_physical:
  assumes "configured sim" and "state_ok sim" and "0 \<le> numPoles sim"
  shows "(tipNearGround sim \<longleftrightarrow>
            (\<exists>i \<in> {1..nat (numPoles sim)}. (\<Sum>m < i. cos (state sim ! (2 + 2 * m))) \<le> - 0.3)) \<and>
         (numPoles sim = 1 \<longrightarrow> (tipNearGround sim \<longleftrightarrow> cos (state sim ! 2) \<le> - 0.3)) \<and>
         (\<forall>cv x. tipNearGround
                   (sim\<lparr>canvas := cv, groundY := height cv - 100, state := (state sim)[0 := x]\<rparr>)
                 \<longleftrightarrow> tipNearGround sim)"
proof (intro conjI impI allI)
  show g: "tipNearGround sim \<longleftrightarrow>
            (\<exists>i \<in> {1..nat (numPoles sim)}. (\<Sum>m < i. cos (state sim ! (2 + 2 * m))) \<le> - 0.3)"
    by (rule tips_near_ground [OF assms(1)])
  show "tipNearGround sim \<longleftrightarrow> cos (state sim ! 2) \<le> - 0.3" if "numPoles sim = 1"
    unfolding g using that by simp
  fix cv x
  let ?sim' = "sim\<lparr>canvas := cv, groundY := height cv - 100, state := (state sim)[0 := x]\<rparr>"
  from assms(1) have c: "configured ?sim'" by (simp add: configured_def)
  show "tipNearGround ?sim' \<longleftrightarrow> tipNearGround sim"
    unfolding g tips_near_ground [OF c] by simp
qed

theorem tipNearGround_physical_witness:
  "tipNearGround (pageSimulator 1 [0, 0, pi, 0])"
proof -
  have s: "state_ok (pageSimulator 1 [0, 0, pi, 0])"
    by (simp add: state_ok_def pageSimulator_def)
  have n: "0 \<le> numPoles (pageSimulator 1 [0, 0, pi, 0])" "numPoles (pageSimulator 1 [0, 0, pi, 0]) = 1"
    by (simp_all add: pageSimulator_def)
  have x: "state (pageSimulator 1 [0, 0, pi, 0]) ! 2 = pi" by (simp add: pageSimulator_def)
  from tipNearGround_physical [OF pageSimulator_configured s n(1)] n(2) x
  show ?thesis by simp
qed

text \<open>
  C9. When an episode ends with a buffer that is not empty, the tick calls \<^verbatim>\<open>agent.update\<close>
  with the advantages and returns of \<^verbatim>\<open>computeGAE\<close> as they are: for buffers of one length
  the advantages handed over are, entry by entry, the values of the backward recursion of
  the specification (\<open>\<gamma> = 0.99\<close>, \<open>\<lambda> = 0.95\<close>) and the returns those values plus the value
  estimates; the mean and standard deviation that \<^verbatim>\<open>computeGAE\<close> computes enter neither. On
  the input of the hand check that mean is not 0 and the advantages are not the ones
  normalized with that mean and standard deviation.
\<close>

theorem update_receives_raw_advantages:
  assumes "length (bufferValues b) = length (bufferRewards b)"
    and "length (bufferDones b) = length (bufferRewards b)"
    and "0 < length (bufferObservations b)"
  shows "\<exists>call. episode_end (PPOAgent od ad) b 1 =
                  (Some call, \<lparr>bufferObservations = [], bufferActions = [], bufferRewards = [],
                               bufferDones = [], bufferLogProbs = [], bufferValues = []\<rparr>) \<and>
           advTensor call =
             advantages (computeGAE (PPOAgent od ad) (bufferRewards b) (bufferValues b) (bufferDones b)) \<and>
           advTensor call =
             map (spec_advantage 0.99 0.95 (bufferRewards b) (bufferValues b) (bufferDones b))
                 [0..<length (bufferRewards b)] \<and>
           retTensor call =
             map (\<lambda>t. spec_advantage 0.99 0.95 (bufferRewards b) (bufferValues b) (bufferDones b) t
                       + bufferValues b ! t)
                 [0..<length (bufferRewards b)] \<and>
           (let adv = advantages (computeGAE (PPOAgent 4 1) [1, 1, 1] [0, 0, 0] [0, 0, 1]);
                mean = foldl (+) 0 adv / real (length adv);
                std = sqrt (foldl (+) 0 (map (\<lambda>a. (a - mean)\<^sup>2) adv) / real (length adv))
            in mean \<noteq> 0 \<and> adv \<noteq> map (\<lambda>a. (a - mean) / std) adv)"
proof -
  let ?ag = "PPOAgent od ad"
  let ?gae = "computeGAE ?ag (bufferRewards b) (bufferValues b) (bufferDones b)"
  let ?call = "\<lparr>obsTensor = bufferObservations b, actTensor = bufferActions b,
                advTensor = advantages ?gae, retTensor = returns ?gae,
                logpOldTensor = bufferLogProbs b\<rparr>"
  have g: "gamma ?ag = 0.99" "lam ?ag = 0.95" by (simp_all add: PPOAgent_def)
  have a: "advantages ?gae =
             map (spec_advantage 0.99 0.95 (bufferRewards b) (bufferValues b) (bufferDones b))
                 [0..<length (bufferRewards b)]"
    using computeGAE_advantages_spec [of ?ag "bufferRewards b" "bufferValues b" "bufferDones b"]
    by (simp only: g)
  have r: "returns ?gae =
             map (\<lambda>t. spec_advantage 0.99 0.95 (bufferRewards b) (bufferValues b) (bufferDones b) t
                       + bufferValues b ! t)
                 [0..<length (bufferRewards b)]"
    unfolding computeGAE_returns a by simp
  have e: "episode_end ?ag b 1 =
             (Some ?call, \<lparr>bufferObservations = [], bufferActions = [], bufferRewards = [],
                               bufferDones = [], bufferLogProbs = [], bufferValues = []\<rparr>)"
    using assms(3) by (simp add: episode_end_def Let_def)
  show ?thesis
  proof (intro exI [of _ ?call] conjI)
    show "episode_end ?ag b 1 =
             (Some ?call, \<lparr>bufferObservations = [], bufferActions = [], bufferRewards = [],
                               bufferDones = [], bufferLogProbs = [], bufferValues = []\<rparr>)"
      by (rule e)
    show "advTensor ?call = advantages ?gae" by simp
    show "advTensor ?call =
             map (spec_advantage 0.99 0.95 (bufferRewards b) (bufferValues b) (bufferDones b))
                 [0..<length (bufferRewards b)]"
      by (simp add: a)
    show "retTensor ?call =
             map (\<lambda>t. spec_advantage 0.99 0.95 (bufferRewards b) (bufferValues b) (bufferDones b) t
                       + bufferValues b ! t)
                 [0..<length (bufferRewards b)]"
      by (simp add: r)
    show "let adv = advantages (computeGAE (PPOAgent 4 1) [1, 1, 1] [0, 0, 0] [0, 0, 1]);
                mean = foldl (+) 0 adv / real (length adv);
                std = sqrt (foldl (+) 0 (map (\<lambda>a. (a - mean)\<^sup>2) adv) / real (length adv))
            in mean \<noteq> 0 \<and> adv \<noteq> map (\<lambda>a. (a - mean) / std) adv"
      by (rule handcheck_not_normalized)
  qed
qed

theorem update_receives_raw_advantages_witness:
  "advTensor (the (fst (episode_end (PPOAgent 4 1)
      \<lparr>bufferObservations = [[0, 0, 0, 0], [0, 0, 0, 0], [0, 0, 0, 0]],
       bufferActions = [[0], [0], [0]], bufferRewards = [1, 1, 1], bufferDones = [0, 0, 1],
       bufferLogProbs = [0, 0, 0], bufferValues = [0, 0, 0]\<rparr> 1))) =
   [282504025 / 10 ^ 8, 19405 / 10 ^ 4, 1]"
proof -
  let ?b = "\<lparr>bufferObservations = [[0, 0, 0, 0], [0, 0, 0, 0], [0, 0, 0, 0]],
       bufferActions = [[0], [0], [0]], bufferRewards = [1, 1, 1], bufferDones = [0, 0, 1],
       bufferLogProbs = [0, 0, 0], bufferValues = [0, 0, 0 :: real]\<rparr>"
  have l: "length (bufferValues ?b) = length (bufferRewards ?b)"
    "length (bufferDones ?b) = length (bufferRewards ?b)" "0 < length (bufferObservations ?b)"
    by simp_all
  from update_receives_raw_advantages [OF l, of 4 1]
  obtain call where c: "fst (episode_end (PPOAgent 4 1) ?b 1) = Some call"
    and a: "advTensor call = advantages (computeGAE (PPOAgent 4 1) (bufferRewards ?b)
               (bufferValues ?b) (bufferDones ?b))"
    by auto
  from a have "advTensor call = [282504025 / 10 ^ 8, 19405 / 10 ^ 4, 1]"
    by (simp add: computeGAE_example)
  with c show ?thesis by simp
qed

text \<open>
  C7. The list of indices that \<^verbatim>\<open>update\<close> slices is computed exactly once, before the epoch
  loop: whatever the passes do, the random source is consulted once (it is left in the
  state after that one call). With a positive batch size the loops end, and every
  minibatch drawn, in whatever epoch \<open>e\<close> and at whatever offset \<open>j\<close>, is the slice
  \<open>indices.slice(j * batchSize, j * batchSize + batchSize)\<close> of that one list: it holds the
  same indices as the minibatch drawn at that offset in every other epoch. When
  \<^verbatim>\<open>update\<close> returns normally, which it does if no pass throws, each of the \<open>epochs\<close> epochs
  has drawn all these slices; when a pass throws, \<^verbatim>\<open>update\<close> ends there, and what has been
  drawn is an initial part of that schedule.
\<close>

theorem update_fixed_permutation:
  assumes "0 < batchSize"
  shows "\<exists>sched r.
           PPOAgent_update createShuffledIndices pass g datasetSize epochs batchSize p =
             (Some (sched, r), snd (createShuffledIndices g datasetSize)) \<and>
           length sched \<le> epochs \<and>
           (\<forall>e < length sched.
              length (sched ! e) \<le> (datasetSize + batchSize - 1) div batchSize \<and>
              (\<forall>j < length (sched ! e).
                 sched ! e ! j =
                   slice (fst (createShuffledIndices g datasetSize))
                     (j * batchSize) (j * batchSize + batchSize) \<and>
                 (\<forall>e' < length sched. j < length (sched ! e') \<longrightarrow> sched ! e' ! j = sched ! e ! j))) \<and>
           (\<not> isl r \<longrightarrow>
              sched = replicate epochs
                        (map (\<lambda>j. slice (fst (createShuffledIndices g datasetSize))
                                   (j * batchSize) (j * batchSize + batchSize))
                             [0..<(datasetSize + batchSize - 1) div batchSize])) \<and>
           ((\<forall>b q. \<not> isl (pass b q)) \<longrightarrow> \<not> isl r)"
proof -
  let ?ind = "fst (createShuffledIndices g datasetSize)"
  from epoch_loop_prefix [OF assms, of pass ?ind datasetSize epochs p]
  obtain sched r where e: "epoch_loop pass ?ind datasetSize batchSize epochs p = Some (sched, r)"
    and len: "length sched \<le> epochs"
    and gs: "\<forall>e < length sched.
              length (sched ! e) \<le> (datasetSize + batchSize - 1) div batchSize \<and>
              (\<forall>j < length (sched ! e).
                 sched ! e ! j = slice ?ind (j * batchSize) (j * batchSize + batchSize))"
    and full: "\<not> isl r \<longrightarrow>
              sched = replicate epochs
                        (map (\<lambda>j. slice ?ind (j * batchSize) (j * batchSize + batchSize))
                             [0..<(datasetSize + batchSize - 1) div batchSize])"
    and ok: "(\<forall>b q. \<not> isl (pass b q)) \<longrightarrow> \<not> isl r"
    by blast
  from e have u: "PPOAgent_update createShuffledIndices pass g datasetSize epochs batchSize p =
             (Some (sched, r), snd (createShuffledIndices g datasetSize))"
    by (simp add: PPOAgent_update_def split_beta)
  from gs have gs': "\<forall>e < length sched.
              length (sched ! e) \<le> (datasetSize + batchSize - 1) div batchSize \<and>
              (\<forall>j < length (sched ! e).
                 sched ! e ! j = slice ?ind (j * batchSize) (j * batchSize + batchSize) \<and>
                 (\<forall>e' < length sched. j < length (sched ! e') \<longrightarrow> sched ! e' ! j = sched ! e ! j))"
    by metis
  from u len gs' full ok show ?thesis by blast
qed

theorem update_fixed_permutation_witness:
  "fst (the (fst (PPOAgent_update (\<lambda>g n. ([2, 0, 1], Suc g)) (\<lambda>b q. Inr (Suc q) :: unit + nat)
                    (0::nat) 3 2 2 0))) = [[[2, 0], [1]], [[2, 0], [1]]] \<and>
   snd (PPOAgent_update (\<lambda>g n. ([2, 0, 1], Suc g)) (\<lambda>b q. Inr (Suc q) :: unit + nat)
          (0::nat) 3 2 2 0) = 1 \<and>
   PPOAgent_update (\<lambda>g n. ([2, 0, 1], Suc g)) (\<lambda>b q. Inl () :: unit + nat) (0::nat) 3 2 2 0 =
     (Some ([[[2, 0]]], Inl ()), 1)"
proof -
  have a: "(0::nat) < 2" by simp
  from update_fixed_permutation [OF a, of "\<lambda>g n. ([2, 0, 1], Suc g)"
      "\<lambda>b q. Inr (Suc q) :: unit + nat" "0::nat" 3 2 0]
  obtain sched r where
    u: "PPOAgent_update (\<lambda>g n. ([2, 0, 1], Suc g)) (\<lambda>b q. Inr (Suc q) :: unit + nat)
          (0::nat) 3 2 2 0 = (Some (sched, r), snd ([2, 0, 1::nat], Suc 0))"
    and full: "\<not> isl r \<longrightarrow>
       sched = replicate 2 (map (\<lambda>j. slice (fst ([2, 0, 1::nat], Suc 0)) (j * 2) (j * 2 + 2))
                                [0..<(3 + 2 - 1) div 2])"
    and ok: "(\<forall>b q. \<not> isl (Inr (Suc q) :: unit + nat)) \<longrightarrow> \<not> isl r"
    by blast
  have B: "map (\<lambda>j. slice [2, 0, 1::nat] (j * 2) (j * 2 + 2)) [0..<(3 + 2 - 1) div 2] = [[2, 0], [1]]"
    by code_simp
  from ok have "\<not> isl r" by simp
  with full have "sched = replicate 2 (map (\<lambda>j. slice (fst ([2, 0, 1::nat], Suc 0)) (j * 2) (j * 2 + 2))
                                [0..<(3 + 2 - 1) div 2])"
    by blast
  then have "sched = replicate 2 [[2, 0], [1]]"
    by (simp only: fst_conv B)
  then have s: "sched = [[[2, 0], [1]], [[2, 0], [1]]]"
    by (simp add: numeral_2_eq_2)
  have m: "minibatches (\<lambda>b q. Inl () :: unit + nat) [2, 0, 1] 3 2 0 0 = Some ([[2, 0]], Inl ())"
    by (subst minibatches.simps) (simp add: slice_def)
  have "epoch_loop (\<lambda>b q. Inl () :: unit + nat) [2, 0, 1] 3 2 (Suc (Suc 0)) 0 =
          Some ([[[2, 0]]], Inl ())"
    by (simp only: epoch_loop.simps m option.case prod.case sum.case)
  then have f: "PPOAgent_update (\<lambda>g n. ([2, 0, 1], Suc g)) (\<lambda>b q. Inl () :: unit + nat)
                  (0::nat) 3 2 2 0 = (Some ([[[2, 0]]], Inl ()), 1)"
    by (simp add: PPOAgent_update_def numeral_2_eq_2 [symmetric])
  from u s f show ?thesis by simp
qed




end
